theory Spec2Isabelle
  imports Complex_Main "HOL-Library.Log_Nat"
begin

section \<open>Order fulfilment: shipment ledger and order status\<close>

text \<open>
  A shallow embedding of the order routes (\<^verbatim>\<open>routes/orders.js\<close>), the audit helper
  \<^verbatim>\<open>logAction\<close> (\<^verbatim>\<open>middleware/auth.js\<close>) and the schema and status trigger of
  \<^verbatim>\<open>database/init.sql\<close>. A handler is a function from the environment (clock, audit
  sink), the database and the request to a response and the database it leaves behind.
  The model starts where the handler function of a route starts: \<^verbatim>\<open>authenticateToken\<close>
  and \<^verbatim>\<open>requireRole\<close> have let the request through. The validator chains of a route are
  part of the model, because the handler itself reads their verdict
  (\<^verbatim>\<open>validationResult(req)\<close>).
\<close>

subsection \<open>Values that cross the JavaScript / PostgreSQL border\<close>

text \<open>
  A \<^verbatim>\<open>DECIMAL(10,2)\<close> column holds a whole number of hundredths; the model stores that
  number. Identifiers (\<^verbatim>\<open>UUID\<close>), timestamps and calendar dates are natural numbers:
  only their equality matters here.
\<close>

type_synonym dec2 = int
type_synonym uuid = nat
type_synonym timestamp = nat
type_synonym date = nat

text \<open>
  JavaScript values that the shipment arithmetic handles. A number is an IEEE 754
  double; \<open>JNum r\<close> is the double whose exact value is the rational \<open>r\<close>, and
  \<open>JNaN\<close> is the number \<^verbatim>\<open>NaN\<close>.
\<close>

datatype jsval = JNum rat | JNaN | JStr string

subsection \<open>Doubles\<close>

text \<open>\<open>scale2 m e\<close> is \<open>m\<close> times 2 to the \<open>e\<close>, \<open>scale10 m e\<close> is \<open>m\<close> times 10 to the \<open>e\<close>.\<close>

definition scale2 :: "int \<Rightarrow> int \<Rightarrow> rat" where
  "scale2 m e = (if 0 \<le> e then of_int (m * 2 ^ nat e) else Fract m (2 ^ nat (- e)))"

definition scale10 :: "int \<Rightarrow> int \<Rightarrow> rat" where
  "scale10 m e = (if 0 \<le> e then of_int (m * 10 ^ nat e) else Fract m (10 ^ nat (- e)))"

text \<open>The nearest integer, a tie going to the even one.\<close>

definition round_half_even :: "rat \<Rightarrow> int" where
  "round_half_even y =
     (let f = \<lfloor>y\<rfloor>; r = y - of_int f in
      if r < 1 / 2 then f else if 1 / 2 < r then f + 1 else if even f then f else f + 1)"

text \<open>
  For a positive \<open>a\<close>, the exponent \<open>k\<close> with \<open>2 ^ k \<le> a < 2 ^ (k + 1)\<close>, found from the
  bit lengths of numerator and denominator.
\<close>

definition binary_exponent :: "rat \<Rightarrow> int" where
  "binary_exponent a =
     (case quotient_of a of (p, q) \<Rightarrow>
        let k = bitlen p - bitlen q in if scale2 1 k \<le> a then k else k - 1)"

text \<open>
  The exponent of the last place of the double nearest to \<open>x\<close>: 53 significant bits,
  and never below -1074, the spacing of the subnormal numbers.
\<close>

definition double_exponent :: "rat \<Rightarrow> int" where
  "double_exponent x = max (binary_exponent \<bar>x\<bar> - 52) (- 1074)"

text \<open>
  The double nearest to \<open>x\<close>, ties to the even significand: what JavaScript computes
  for a numeric literal, for the conversion of a string and for the exact result of an
  addition or subtraction. The exponent is not bounded above here; a result of
  \<open>2 ^ 1024\<close> or more stands for \<^verbatim>\<open>Infinity\<close>, which \<open>double_finite\<close> tells apart.
\<close>

definition to_double :: "rat \<Rightarrow> rat" where
  "to_double x =
     (if x = 0 then 0
      else let e = double_exponent x;
               m = round_half_even (\<bar>x\<bar> / scale2 1 e)
           in scale2 (if x < 0 then - m else m) e)"

definition double_finite :: "rat \<Rightarrow> bool" where
  "double_finite d = (binary_exponent \<bar>d\<bar> < 1024)"

text \<open>
  \<^verbatim>\<open>JSON.parse\<close> on a number of the request body: the double nearest to the decimal
  written there.
\<close>

definition json_number :: "rat \<Rightarrow> jsval" where
  "json_number r = JNum (to_double r)"

subsection \<open>Texts of numbers\<close>

definition digit_char :: "nat \<Rightarrow> char" where
  "digit_char d = char_of (48 + d)"

text \<open>The decimal digits of a non-negative integer.\<close>

function show_digits :: "int \<Rightarrow> string" where
  "show_digits n =
     (if n < 10 then [digit_char (nat n)]
      else show_digits (n div 10) @ [digit_char (nat (n mod 10))])"
  by pat_completeness auto
termination
  by (relation "measure nat") auto

declare show_digits.simps [simp del]

text \<open>
  The text PostgreSQL sends for a \<^verbatim>\<open>numeric(10,2)\<close> value: always two decimals
  (\<^verbatim>\<open>100.00\<close>, \<^verbatim>\<open>0.00\<close>, \<^verbatim>\<open>0.50\<close>).
\<close>

definition numeric_out :: "dec2 \<Rightarrow> string" where
  "numeric_out c =
     (let a = \<bar>c\<bar> in
      (if c < 0 then ''-'' else '''') @ show_digits (a div 100) @ ''.'' @
      [digit_char (nat (a div 10 mod 10)), digit_char (nat (a mod 10))])"

text \<open>
  node-postgres hands a \<^verbatim>\<open>numeric\<close> column to JavaScript as a string: its type parsers
  convert \<^verbatim>\<open>int4\<close>, \<^verbatim>\<open>float8\<close>, \<^verbatim>\<open>bool\<close> and the date types, and leave \<^verbatim>\<open>numeric\<close> and
  \<^verbatim>\<open>int8\<close> as the text the server sent (the routes themselves \<^verbatim>\<open>parseInt\<close> the
  \<^verbatim>\<open>COUNT(*)\<close> they read, for that reason). No route installs another parser. So
  \<^verbatim>\<open>lineItem.quantity\<close> and \<^verbatim>\<open>lineItem.shipped_quantity\<close> are strings.
\<close>

definition row_numeric :: "dec2 \<Rightarrow> jsval" where
  "row_numeric c = JStr (numeric_out c)"

definition is_digit :: "char \<Rightarrow> bool" where
  "is_digit c = (48 \<le> (of_char c :: nat) \<and> (of_char c :: nat) \<le> 57)"

definition digit_val :: "char \<Rightarrow> int" where
  "digit_val c = of_char c - 48"

definition digits_val :: "string \<Rightarrow> int" where
  "digits_val s = foldl (\<lambda>a c. 10 * a + digit_val c) 0 s"

text \<open>
  A decimal literal without exponent: digits, an optional point, digits, at least one
  digit in all; an optional sign in front. Both JavaScript's string-to-number conversion
  and PostgreSQL's \<^verbatim>\<open>numeric\<close> input read such a text as the same decimal. The exponent
  forms and surrounding white space, which both also accept, are left out. A number
  that passed \<^verbatim>\<open>isFloat({min: 0.01})\<close> is printed with an exponent only from \<^verbatim>\<open>1e+21\<close> on,
  which is beyond \<^verbatim>\<open>DECIMAL(10,2)\<close> however it is read: the insert raises either way.
\<close>

definition unsigned_decimal :: "string \<Rightarrow> rat option" where
  "unsigned_decimal s =
     (let ip = takeWhile is_digit s; rest = dropWhile is_digit s in
      if rest = [] then (if ip = [] then None else Some (of_int (digits_val ip)))
      else if hd rest = CHR ''.'' \<and> list_all is_digit (tl rest) \<and> (ip \<noteq> [] \<or> tl rest \<noteq> [])
      then Some (of_int (digits_val ip) + of_int (digits_val (tl rest)) / 10 ^ length (tl rest))
      else None)"

definition signed_decimal :: "string \<Rightarrow> rat option" where
  "signed_decimal s =
     (case s of
        [] \<Rightarrow> None
      | c # t \<Rightarrow>
          if c = CHR ''-'' then map_option uminus (unsigned_decimal t)
          else if c = CHR ''+'' then unsigned_decimal t
          else unsigned_decimal s)"

text \<open>
  \<^verbatim>\<open>ToNumber\<close>: \<open>None\<close> stands for \<^verbatim>\<open>NaN\<close>; the empty string is 0; a decimal text
  gives the double nearest to it.
\<close>

definition js_to_number :: "jsval \<Rightarrow> rat option" where
  "js_to_number v =
     (case v of
        JNum r \<Rightarrow> Some r
      | JNaN \<Rightarrow> None
      | JStr s \<Rightarrow> if s = [] then Some 0 else map_option to_double (signed_decimal s))"

text \<open>
  \<^verbatim>\<open>Number::toString\<close>. For a positive \<open>a\<close>, \<open>decimal_exponent a\<close> is the \<open>n\<close> with
  \<open>10 ^ (n - 1) \<le> a < 10 ^ n\<close>.
\<close>

definition decimal_exponent :: "rat \<Rightarrow> int" where
  "decimal_exponent a =
     (if 1 \<le> a then int (length (show_digits \<lfloor>a\<rfloor>))
      else let l = int (length (show_digits \<lfloor>1 / a\<rfloor>)) in
           if a * scale10 1 (l - 1) = 1 then 2 - l else 1 - l)"

text \<open>
  The decimal of \<open>k\<close> digits that converts back to the double \<open>d\<close>, if there is one:
  only the two decimals of \<open>k\<close> digits around \<open>d\<close> can, and of two that do the closer one
  is taken, the even one on a tie. The result is the digits and the position \<open>n\<close> of the
  decimal point: the decimal is \<open>0.digits\<close> times 10 to the \<open>n\<close>.
\<close>

definition digits_of_length :: "rat \<Rightarrow> int \<Rightarrow> nat \<Rightarrow> (string \<times> int) option" where
  "digits_of_length d n k =
     (let j = n - int k; lo = \<lfloor>d / scale10 1 j\<rfloor>; hi = lo + 1;
          ok_lo = (to_double (scale10 lo j) = d);
          ok_hi = (to_double (scale10 hi j) = d);
          up = (if ok_lo \<and> ok_hi
                then scale10 hi j - d < d - scale10 lo j \<or>
                     (scale10 hi j - d = d - scale10 lo j \<and> odd lo)
                else ok_hi)
      in if \<not> ok_lo \<and> \<not> ok_hi then None
         else if \<not> up then Some (show_digits lo, n)
         else if hi = 10 ^ k then Some (''1'', n + 1)
         else Some (show_digits hi, n))"

text \<open>The shortest such decimal: 1 digit, then 2, and so on; 17 digits always do.\<close>

fun shortest_from :: "rat \<Rightarrow> int \<Rightarrow> nat \<Rightarrow> nat \<Rightarrow> string \<times> int" where
  "shortest_from d n k 0 = (show_digits \<lfloor>d / scale10 1 (n - int k)\<rfloor>, n)"
| "shortest_from d n k (Suc fuel) =
     (case digits_of_length d n k of
        Some r \<Rightarrow> r
      | None \<Rightarrow> shortest_from d n (Suc k) fuel)"

definition shortest_digits :: "rat \<Rightarrow> string \<times> int" where
  "shortest_digits d = shortest_from d (decimal_exponent d) 1 17"

text \<open>
  The notation: plain digits, with zeros appended or a point inserted, when the point
  falls within 21 digits; \<^verbatim>\<open>0.000ddd\<close> down to \<^verbatim>\<open>1e-6\<close>; the exponent form otherwise.
\<close>

definition number_text :: "string \<Rightarrow> int \<Rightarrow> string" where
  "number_text ds n =
     (let k = int (length ds) in
      if k \<le> n \<and> n \<le> 21 then ds @ replicate (nat (n - k)) CHR ''0''
      else if 0 < n \<and> n \<le> 21 then take (nat n) ds @ ''.'' @ drop (nat n) ds
      else if - 6 < n \<and> n \<le> 0 then ''0.'' @ replicate (nat (- n)) CHR ''0'' @ ds
      else let ex = (if n - 1 < 0 then ''-'' else ''+'') @ show_digits \<bar>n - 1\<bar> in
           if k = 1 then ds @ ''e'' @ ex else hd ds # ''.'' @ tl ds @ ''e'' @ ex)"

definition js_number_to_string :: "rat \<Rightarrow> string" where
  "js_number_to_string r =
     (let d = to_double r in
      if d = 0 then ''0''
      else if \<not> double_finite d then (if d < 0 then ''-Infinity'' else ''Infinity'')
      else (if d < 0 then ''-'' else '''') @
           (case shortest_digits \<bar>d\<bar> of (ds, n) \<Rightarrow> number_text ds n))"

definition js_to_string :: "jsval \<Rightarrow> string" where
  "js_to_string v =
     (case v of JNum r \<Rightarrow> js_number_to_string r | JNaN \<Rightarrow> ''NaN'' | JStr s \<Rightarrow> s)"

text \<open>Strings compare by code units, the first difference deciding.\<close>

fun str_less :: "string \<Rightarrow> string \<Rightarrow> bool" where
  "str_less [] [] = False"
| "str_less [] (y # ys) = True"
| "str_less (x # xs) [] = False"
| "str_less (x # xs) (y # ys) =
     ((of_char x :: nat) < of_char y \<or> (x = y \<and> str_less xs ys))"

text \<open>
  The operators of the shipment handler. \<^verbatim>\<open>a - b\<close> converts both sides to numbers and
  rounds the difference to a double; \<^verbatim>\<open>a + b\<close> concatenates as soon as one side is a
  string; \<^verbatim>\<open>a > b\<close> and \<^verbatim>\<open>a >= b\<close> compare two strings as strings and anything else as
  numbers, \<^verbatim>\<open>NaN\<close> comparing false.
\<close>

definition js_sub :: "jsval \<Rightarrow> jsval \<Rightarrow> jsval" where
  "js_sub a b =
     (case (js_to_number a, js_to_number b) of
        (Some x, Some y) \<Rightarrow> JNum (to_double (x - y))
      | _ \<Rightarrow> JNaN)"

definition is_string :: "jsval \<Rightarrow> bool" where
  "is_string v = (case v of JStr _ \<Rightarrow> True | _ \<Rightarrow> False)"

definition js_add :: "jsval \<Rightarrow> jsval \<Rightarrow> jsval" where
  "js_add a b =
     (if is_string a \<or> is_string b then JStr (js_to_string a @ js_to_string b)
      else (case (js_to_number a, js_to_number b) of
              (Some x, Some y) \<Rightarrow> JNum (to_double (x + y))
            | _ \<Rightarrow> JNaN))"

definition js_gt :: "jsval \<Rightarrow> jsval \<Rightarrow> bool" where
  "js_gt a b =
     (case (a, b) of
        (JStr s, JStr t) \<Rightarrow> str_less t s
      | _ \<Rightarrow> (case (js_to_number a, js_to_number b) of
                (Some x, Some y) \<Rightarrow> y < x
              | _ \<Rightarrow> False))"

definition js_ge :: "jsval \<Rightarrow> jsval \<Rightarrow> bool" where
  "js_ge a b =
     (case (a, b) of
        (JStr s, JStr t) \<Rightarrow> \<not> str_less s t
      | _ \<Rightarrow> (case (js_to_number a, js_to_number b) of
                (Some x, Some y) \<Rightarrow> y \<le> x
              | _ \<Rightarrow> False))"

text \<open>
  A query parameter travels as text (\<^verbatim>\<open>ToString\<close> of a number, a string as it is);
  the server reads it as \<^verbatim>\<open>numeric\<close> and, on assignment to a \<^verbatim>\<open>DECIMAL(10,2)\<close> column,
  rounds to two decimals, half away from zero, and raises when the result needs more than
  eight digits before the point. \<open>None\<close> is a raised error.
\<close>

definition round_scale2 :: "rat \<Rightarrow> dec2" where
  "round_scale2 r = (if 0 \<le> r then \<lfloor>r * 100 + 1 / 2\<rfloor> else - \<lfloor>- r * 100 + 1 / 2\<rfloor>)"

definition to_decimal_10_2 :: "jsval \<Rightarrow> dec2 option" where
  "to_decimal_10_2 v =
     (case signed_decimal (js_to_string v) of
        None \<Rightarrow> None
      | Some r \<Rightarrow> let c = round_scale2 r in if \<bar>c\<bar> < 10 ^ 10 then Some c else None)"

text \<open>
  The validator \<^verbatim>\<open>isFloat({min: m})\<close> on a value of the request body. It reads the text
  of the value: a finite number at least \<open>m\<close> passes (\<open>m\<close> is a literal of the source,
  hence a double itself), \<^verbatim>\<open>Infinity\<close> and \<^verbatim>\<open>NaN\<close> do not. Only numbers are sent here.
\<close>

definition is_float_min :: "jsval \<Rightarrow> rat \<Rightarrow> bool" where
  "is_float_min v m =
     (case v of
        JNum d \<Rightarrow> double_finite d \<and> to_double m \<le> d
      | _ \<Rightarrow> False)"

definition is_space :: "char \<Rightarrow> bool" where
  "is_space c = ((of_char c :: nat) = 32 \<or> (9 \<le> (of_char c :: nat) \<and> (of_char c :: nat) \<le> 13))"

text \<open>The \<^verbatim>\<open>trim()\<close> sanitizer: white space off both ends.\<close>

definition trim :: "string \<Rightarrow> string" where
  "trim s = rev (dropWhile is_space (rev (dropWhile is_space s)))"

text \<open>\<^verbatim>\<open>x || null\<close> on an optional string: absent and empty both give \<^verbatim>\<open>null\<close>.\<close>

definition or_null :: "string option \<Rightarrow> string option" where
  "or_null x = (case x of None \<Rightarrow> None | Some s \<Rightarrow> if s = [] then None else Some s)"

subsection \<open>The tables of \<^verbatim>\<open>init.sql\<close>\<close>

datatype order_status = Pending | Production | Shipped | Cancelled

record order_row =
  o_id :: uuid
  o_po_number :: string
  o_customer_id :: uuid
  o_due_date :: "date option"
  o_quoted_ship_date :: "date option"
  o_status :: order_status
  o_notes :: "string option"
  o_created_at :: timestamp
  o_updated_at :: timestamp
  o_created_by :: uuid

record line_item_row =
  oli_id :: uuid
  oli_order_id :: uuid
  oli_part_id :: "uuid option"
  oli_part_number :: string
  oli_description :: string
  oli_colors :: "string option"
  oli_quantity :: dec2
  oli_unit :: string
  oli_in_production :: bool
  oli_shipped_quantity :: dec2
  oli_date_shipped :: "date option"
  oli_created_at :: timestamp
  oli_updated_at :: timestamp

record shipment_row =
  s_id :: uuid
  s_line_item_id :: uuid
  s_quantity :: dec2
  s_ship_date :: date
  s_tracking_number :: "string option"
  s_notes :: "string option"
  s_created_at :: timestamp
  s_created_by :: uuid

datatype snapshot = OrderSnap order_row | LineItemSnap line_item_row

text \<open>
  An audit row keeps the two snapshots as the rows they were taken from (the source
  stores their JSON text); the columns \<^verbatim>\<open>ip_address\<close> and \<^verbatim>\<open>user_agent\<close> are left out.
\<close>

record audit_row =
  a_user_id :: uuid
  a_action :: string
  a_table_name :: string
  a_record_id :: uuid
  a_old_values :: "snapshot option"
  a_new_values :: "snapshot option"

text \<open>
  The database: one list of rows per table, in insertion order. A customer is its id and
  its \<^verbatim>\<open>active\<close> flag, a part its id. \<open>next_uuid\<close> stands for \<^verbatim>\<open>uuid_generate_v4()\<close>:
  the id the next inserted row gets.
\<close>

record database =
  customers :: "(uuid \<times> bool) list"
  parts :: "uuid list"
  orders :: "order_row list"
  order_line_items :: "line_item_row list"
  shipments :: "shipment_row list"
  audit_log :: "audit_row list"
  next_uuid :: uuid

text \<open>
  What a request sees of the world outside the database: \<^verbatim>\<open>CURRENT_TIMESTAMP\<close>, the
  date \<^verbatim>\<open>new Date().toISOString().split('T')[0]\<close>, and whether the \<^verbatim>\<open>INSERT INTO
  audit_log\<close> of \<^verbatim>\<open>logAction\<close> goes through.
\<close>

record env =
  now :: timestamp
  today :: date
  audit_sink_ok :: bool

datatype error =
    ValidationError
  | Conflict
  | CustomerNotFound
  | NotFound
  | OverShipment
  | InternalError

text \<open>
  The responses: \<open>ValidationError\<close> is \<^verbatim>\<open>400 {errors: [...]}\<close>, \<open>Conflict\<close> is
  \<^verbatim>\<open>400 'PO number already exists for this customer'\<close>, \<open>CustomerNotFound\<close> is
  \<^verbatim>\<open>400 'Customer not found'\<close>, \<open>NotFound\<close> is a 404, \<open>OverShipment\<close> is
  \<^verbatim>\<open>400 'Quantity exceeds remaining amount'\<close> and \<open>InternalError\<close> is the 500 of a
  \<^verbatim>\<open>catch\<close> block.
\<close>

subsection \<open>The status trigger\<close>

text \<open>
  The \<^verbatim>\<open>IF\<close> chain of \<^verbatim>\<open>update_order_status()\<close> over the three counts it selects from
  the line items of the order.
\<close>

definition status_from_items :: "line_item_row list \<Rightarrow> order_status" where
  "status_from_items items =
     (let total_items = length items;
          shipped_items = length (filter (\<lambda>i. oli_date_shipped i \<noteq> None) items);
          production_items =
            length (filter (\<lambda>i. oli_in_production i \<and> oli_date_shipped i = None) items)
      in if shipped_items = total_items then Shipped
         else if production_items > 0 \<or> shipped_items > 0 then Production
         else Pending)"

text \<open>
  \<^verbatim>\<open>UPDATE orders SET status = ... WHERE id = ...\<close>; the \<^verbatim>\<open>BEFORE UPDATE\<close> trigger of
  \<^verbatim>\<open>orders\<close> stamps \<^verbatim>\<open>updated_at\<close>.
\<close>

definition set_order_status :: "timestamp \<Rightarrow> uuid \<Rightarrow> order_status \<Rightarrow> order_row list \<Rightarrow> order_row list" where
  "set_order_status t oid st os =
     map (\<lambda>ord. if o_id ord = oid then ord\<lparr>o_status := st, o_updated_at := t\<rparr> else ord) os"

text \<open>
  \<^verbatim>\<open>update_order_status()\<close>, run after every insert, update or delete of a line item
  with the \<^verbatim>\<open>order_id\<close> of that row. When no order has this id, \<^verbatim>\<open>order_record.id\<close> is
  null and the updates touch nothing.
\<close>

definition update_order_status :: "timestamp \<Rightarrow> database \<Rightarrow> uuid \<Rightarrow> database" where
  "update_order_status t db order_id =
     (case find (\<lambda>ord. o_id ord = order_id) (orders db) of
        None \<Rightarrow> db
      | Some order_record \<Rightarrow>
          db\<lparr>orders :=
               set_order_status t (o_id order_record)
                 (status_from_items
                    (filter (\<lambda>i. oli_order_id i = o_id order_record) (order_line_items db)))
                 (orders db)\<rparr>)"

subsection \<open>The audit helper\<close>

text \<open>
  \<^verbatim>\<open>logAction\<close> inserts one row through the pool and swallows every error
  (\<^verbatim>\<open>catch (error) { console.error(...) }\<close>): it never throws.
\<close>

definition logAction ::
  "env \<Rightarrow> database \<Rightarrow> uuid \<Rightarrow> string \<Rightarrow> string \<Rightarrow> uuid \<Rightarrow> snapshot option \<Rightarrow> snapshot option \<Rightarrow> database" where
  "logAction e db userId action tableName recordId oldValues newValues =
     (if audit_sink_ok e
      then db\<lparr>audit_log := audit_log db @
             [\<lparr>a_user_id = userId, a_action = action, a_table_name = tableName,
               a_record_id = recordId, a_old_values = oldValues, a_new_values = newValues\<rparr>]\<rparr>
      else db)"

definition first_row :: "'a list \<Rightarrow> 'a option" where
  "first_row rows = (case rows of [] \<Rightarrow> None | r # _ \<Rightarrow> Some r)"

subsection \<open>\<^verbatim>\<open>PUT /:id\<close>: updateOrder\<close>

text \<open>
  The body of the request. The handler destructures \<^verbatim>\<open>poNumber\<close>, \<^verbatim>\<open>dueDate\<close>,
  \<^verbatim>\<open>quotedShipDate\<close> and \<^verbatim>\<open>notes\<close>; \<open>uo_status\<close> and \<open>uo_customerId\<close> stand for whatever
  else a client puts into the body.
\<close>

record update_order_req =
  uo_poNumber :: "string option"
  uo_dueDate :: "date option"
  uo_quotedShipDate :: "date option"
  uo_notes :: "string option"
  uo_status :: "order_status option"
  uo_customerId :: "uuid option"
  uo_user :: uuid

definition coalesce :: "'a option \<Rightarrow> 'a \<Rightarrow> 'a" where
  "coalesce p old = (case p of None \<Rightarrow> old | Some v \<Rightarrow> v)"

definition coalesce_opt :: "'a option \<Rightarrow> 'a option \<Rightarrow> 'a option" where
  "coalesce_opt p old = (case p of None \<Rightarrow> old | Some v \<Rightarrow> Some v)"

text \<open>The row the \<^verbatim>\<open>UPDATE orders SET ... COALESCE ...\<close> statement writes.\<close>

definition updated_order :: "timestamp \<Rightarrow> string option \<Rightarrow> update_order_req \<Rightarrow> order_row \<Rightarrow> order_row" where
  "updated_order t poNumber req ord =
     ord\<lparr>o_po_number := coalesce poNumber (o_po_number ord),
       o_due_date := coalesce_opt (uo_dueDate req) (o_due_date ord),
       o_quoted_ship_date := coalesce_opt (uo_quotedShipDate req) (o_quoted_ship_date ord),
       o_notes := coalesce_opt (uo_notes req) (o_notes ord),
       o_updated_at := t\<rparr>"

text \<open>
  The statement raises when a written row breaks \<^verbatim>\<open>VARCHAR(100)\<close> or
  \<^verbatim>\<open>UNIQUE(customer_id, po_number)\<close>.
\<close>

definition order_update_raises :: "order_row list \<Rightarrow> uuid \<Rightarrow> order_row \<Rightarrow> bool" where
  "order_update_raises os oid new =
     (length (o_po_number new) > 100 \<or>
      (\<exists>ord' \<in> set os. o_id ord' \<noteq> oid \<and> o_customer_id ord' = o_customer_id new \<and>
                      o_po_number ord' = o_po_number new))"

definition updateOrder :: "env \<Rightarrow> database \<Rightarrow> uuid \<Rightarrow> update_order_req \<Rightarrow> (error + order_row option) \<times> database" where
  "updateOrder e db ident req =
     (let poNumber = map_option trim (uo_poNumber req) in
      if poNumber = Some [] then (Inl ValidationError, db)
      else
        (case find (\<lambda>ord. o_id ord = ident) (orders db) of
           None \<Rightarrow> (Inl NotFound, db)
         | Some oldValues \<Rightarrow>
             if \<exists>ord \<in> set (orders db). o_id ord = ident \<and>
                  order_update_raises (orders db) ident (updated_order (now e) poNumber req ord)
             then (Inl InternalError, db)
             else
               let db1 = db\<lparr>orders :=
                           map (\<lambda>ord. if o_id ord = ident then updated_order (now e) poNumber req ord else ord)
                             (orders db)\<rparr>;
                   updatedOrder = first_row (filter (\<lambda>ord. o_id ord = ident) (orders db1));
                   db2 = logAction e db1 (uo_user req) ''UPDATE_ORDER'' ''orders'' ident
                           (Some (OrderSnap oldValues)) (map_option OrderSnap updatedOrder)
               in (Inr updatedOrder, db2)))"

subsection \<open>\<^verbatim>\<open>PUT /:orderId/items/:itemId/production\<close>: setInProduction\<close>

text \<open>
  The \<^verbatim>\<open>AFTER UPDATE ... FOR EACH ROW\<close> trigger runs once for each updated line item.
\<close>

definition fire_status_trigger :: "timestamp \<Rightarrow> database \<Rightarrow> line_item_row list \<Rightarrow> database" where
  "fire_status_trigger t db rows = foldl (\<lambda>d r. update_order_status t d (oli_order_id r)) db rows"

definition setInProduction :: "env \<Rightarrow> database \<Rightarrow> uuid \<Rightarrow> uuid \<Rightarrow> uuid \<Rightarrow> (error + line_item_row option) \<times> database" where
  "setInProduction e db user orderId itemId =
     (case find (\<lambda>i. oli_id i = itemId \<and> oli_order_id i = orderId) (order_line_items db) of
        None \<Rightarrow> (Inl NotFound, db)
      | Some oldValues \<Rightarrow>
          let db1 = db\<lparr>order_line_items :=
                      map (\<lambda>i. if oli_id i = itemId
                                then i\<lparr>oli_in_production := True, oli_updated_at := now e\<rparr> else i)
                        (order_line_items db)\<rparr>;
              rows = filter (\<lambda>i. oli_id i = itemId) (order_line_items db1);
              db2 = fire_status_trigger (now e) db1 rows;
              updatedItem = first_row rows;
              db3 = logAction e db2 user ''SET_PRODUCTION'' ''order_line_items'' itemId
                      (Some (LineItemSnap oldValues)) (map_option LineItemSnap updatedItem)
          in (Inr updatedItem, db3))"

subsection \<open>\<^verbatim>\<open>DELETE /:id\<close>: cancelOrder\<close>

definition cancelOrder :: "env \<Rightarrow> database \<Rightarrow> uuid \<Rightarrow> uuid \<Rightarrow> (error + unit) \<times> database" where
  "cancelOrder e db user ident =
     (case find (\<lambda>ord. o_id ord = ident) (orders db) of
        None \<Rightarrow> (Inl NotFound, db)
      | Some order \<Rightarrow>
          let db1 = db\<lparr>orders := set_order_status (now e) ident Cancelled (orders db)\<rparr>;
              db2 = logAction e db1 user ''DELETE_ORDER'' ''orders'' ident
                      (Some (OrderSnap order)) None
          in (Inr (), db2))"

subsection \<open>\<^verbatim>\<open>POST /\<close>: createOrder\<close>

text \<open>
  The body of the request; \<open>li_quantity\<close> is the decimal that the JSON text of the body
  gives as quantity.
\<close>

record line_item_input =
  li_partId :: "uuid option"
  li_partNumber :: string
  li_description :: string
  li_colors :: "string option"
  li_quantity :: rat
  li_unit :: string

record create_order_req =
  co_poNumber :: string
  co_customerId :: uuid
  co_dueDate :: "date option"
  co_quotedShipDate :: "date option"
  co_notes :: "string option"
  co_lineItems :: "line_item_input list"
  co_user :: uuid

text \<open>
  The validator chain: \<^verbatim>\<open>trim().notEmpty()\<close> on the PO number, the part number and the
  description, \<^verbatim>\<open>isArray({min: 1})\<close>, \<^verbatim>\<open>isFloat({min: 0.01})\<close>, \<^verbatim>\<open>isIn([...])\<close>. The
  sanitizers write the trimmed text back into the request.
\<close>

definition valid_line_item :: "line_item_input \<Rightarrow> bool" where
  "valid_line_item item =
     (trim (li_partNumber item) \<noteq> [] \<and> trim (li_description item) \<noteq> [] \<and>
      is_float_min (json_number (li_quantity item)) (1 / 100) \<and>
      li_unit item \<in> set [''feet'', ''meters'', ''pieces''])"

definition valid_create_order :: "create_order_req \<Rightarrow> bool" where
  "valid_create_order req =
     (trim (co_poNumber req) \<noteq> [] \<and> co_lineItems req \<noteq> [] \<and>
      list_all valid_line_item (co_lineItems req))"

definition sanitize_item :: "line_item_input \<Rightarrow> line_item_input" where
  "sanitize_item item =
     item\<lparr>li_partNumber := trim (li_partNumber item), li_description := trim (li_description item)\<rparr>"

text \<open>
  \<^verbatim>\<open>INSERT INTO orders ... RETURNING ...\<close>: \<open>None\<close> when the row breaks
  \<^verbatim>\<open>VARCHAR(100)\<close>, the reference to \<^verbatim>\<open>customers\<close> or \<^verbatim>\<open>UNIQUE(customer_id, po_number)\<close>.
  The status is the column default.
\<close>

definition insert_order :: "timestamp \<Rightarrow> database \<Rightarrow> string \<Rightarrow> create_order_req \<Rightarrow> (database \<times> order_row) option" where
  "insert_order t db poNumber req =
     (if length poNumber > 100 \<or>
         co_customerId req \<notin> fst ` set (customers db) \<or>
         (\<exists>ord \<in> set (orders db). o_customer_id ord = co_customerId req \<and> o_po_number ord = poNumber)
      then None
      else
        let order = \<lparr>o_id = next_uuid db, o_po_number = poNumber,
                      o_customer_id = co_customerId req, o_due_date = co_dueDate req,
                      o_quoted_ship_date = co_quotedShipDate req, o_status = Pending,
                      o_notes = or_null (co_notes req), o_created_at = t,
                      o_updated_at = t, o_created_by = co_user req\<rparr>
        in Some (db\<lparr>orders := orders db @ [order], next_uuid := Suc (next_uuid db)\<rparr>, order))"

text \<open>
  \<^verbatim>\<open>INSERT INTO order_line_items ... RETURNING *\<close>: \<open>None\<close> when the quantity does not fit
  \<^verbatim>\<open>DECIMAL(10,2)\<close> or a column constraint, a check or a reference is broken. The status
  trigger runs after the insert.
\<close>

definition insert_line_item :: "timestamp \<Rightarrow> database \<Rightarrow> uuid \<Rightarrow> line_item_input \<Rightarrow> (database \<times> line_item_row) option" where
  "insert_line_item t db order_id item =
     (case to_decimal_10_2 (json_number (li_quantity item)) of
        None \<Rightarrow> None
      | Some q \<Rightarrow>
          if order_id \<notin> o_id ` set (orders db) \<or>
             (case li_partId item of None \<Rightarrow> False | Some p \<Rightarrow> p \<notin> set (parts db)) \<or>
             length (li_partNumber item) > 100 \<or>
             (case or_null (li_colors item) of None \<Rightarrow> False | Some c \<Rightarrow> length c > 255) \<or>
             \<not> 0 < q \<or>
             li_unit item \<notin> set [''feet'', ''meters'', ''pieces'']
          then None
          else
            let row = \<lparr>oli_id = next_uuid db, oli_order_id = order_id,
                        oli_part_id = li_partId item, oli_part_number = li_partNumber item,
                        oli_description = li_description item,
                        oli_colors = or_null (li_colors item), oli_quantity = q,
                        oli_unit = li_unit item, oli_in_production = False,
                        oli_shipped_quantity = 0, oli_date_shipped = None,
                        oli_created_at = t, oli_updated_at = t\<rparr>;
                db1 = db\<lparr>order_line_items := order_line_items db @ [row],
                         next_uuid := Suc (next_uuid db)\<rparr>
            in Some (fire_status_trigger t db1 [row], row))"

text \<open>The \<^verbatim>\<open>for (const item of lineItems)\<close> loop; the first raised error ends it.\<close>

fun insert_line_items :: "timestamp \<Rightarrow> database \<Rightarrow> uuid \<Rightarrow> line_item_input list \<Rightarrow> (database \<times> line_item_row list) option" where
  "insert_line_items t db order_id [] = Some (db, [])"
| "insert_line_items t db order_id (item # items) =
     (case insert_line_item t db order_id item of
        None \<Rightarrow> None
      | Some (db1, row) \<Rightarrow>
          (case insert_line_items t db1 order_id items of
             None \<Rightarrow> None
           | Some (db2, rows) \<Rightarrow> Some (db2, row # rows)))"

text \<open>
  The handler. Every \<^verbatim>\<open>ROLLBACK\<close>, the two explicit ones and the one of the \<^verbatim>\<open>catch\<close>
  block, gives back the database of \<^verbatim>\<open>BEGIN\<close>. \<^verbatim>\<open>logAction\<close> runs after \<^verbatim>\<open>COMMIT\<close>.
  The order in the response and in the audit entry is the inserted row (the source returns
  eight of its columns).
\<close>

definition createOrder :: "env \<Rightarrow> database \<Rightarrow> create_order_req \<Rightarrow> (error + order_row \<times> line_item_row list) \<times> database" where
  "createOrder e db req =
     (let poNumber = trim (co_poNumber req);
          lineItems = map sanitize_item (co_lineItems req)
      in
      if \<not> valid_create_order req then (Inl ValidationError, db)
      else if \<exists>ord \<in> set (orders db). o_customer_id ord = co_customerId req \<and> o_po_number ord = poNumber
      then (Inl Conflict, db)
      else if \<not> (\<exists>c \<in> set (customers db). fst c = co_customerId req \<and> snd c)
      then (Inl CustomerNotFound, db)
      else
        (case insert_order (now e) db poNumber req of
           None \<Rightarrow> (Inl InternalError, db)
         | Some (db1, order) \<Rightarrow>
             (case insert_line_items (now e) db1 (o_id order) lineItems of
                None \<Rightarrow> (Inl InternalError, db)
              | Some (db2, createdLineItems) \<Rightarrow>
                  let db3 = logAction e db2 (co_user req) ''CREATE_ORDER'' ''orders'' (o_id order)
                              None (Some (OrderSnap order))
                  in (Inr (order, createdLineItems), db3))))"

subsection \<open>\<^verbatim>\<open>POST /:orderId/items/:itemId/ship\<close>: shipLineItem\<close>

text \<open>
  The body of the request; \<open>sh_quantity\<close> is the decimal that the JSON text of the body
  gives as quantity, so that \<^verbatim>\<open>req.body.quantity\<close> is \<open>json_number (sh_quantity req)\<close>. The
  validator is \<^verbatim>\<open>isFloat({min: 0.01})\<close>; \<^verbatim>\<open>trim()\<close> is applied to the tracking number and
  the notes.
\<close>

record ship_req =
  sh_quantity :: rat
  sh_shipDate :: "date option"
  sh_trackingNumber :: "string option"
  sh_notes :: "string option"
  sh_user :: uuid

record ship_body =
  sb_lineItem :: "line_item_row option"
  sb_shippedQuantity :: jsval
  sb_remainingQuantity :: jsval

definition valid_ship :: "ship_req \<Rightarrow> bool" where
  "valid_ship req = is_float_min (json_number (sh_quantity req)) (1 / 100)"

text \<open>
  \<^verbatim>\<open>INSERT INTO shipments\<close>: \<open>None\<close> when the quantity does not fit the column or its
  check, the tracking number is longer than \<^verbatim>\<open>VARCHAR(100)\<close> or the line item is missing.
\<close>

definition insert_shipment ::
  "timestamp \<Rightarrow> database \<Rightarrow> uuid \<Rightarrow> jsval \<Rightarrow> date \<Rightarrow> string option \<Rightarrow> string option \<Rightarrow> uuid \<Rightarrow> database option" where
  "insert_shipment t db itemId quantity shipDate trackingNumber notes user =
     (case to_decimal_10_2 quantity of
        None \<Rightarrow> None
      | Some q \<Rightarrow>
          if itemId \<notin> oli_id ` set (order_line_items db) \<or> \<not> 0 < q \<or>
             (case trackingNumber of None \<Rightarrow> False | Some tn \<Rightarrow> length tn > 100)
          then None
          else Some (db\<lparr>shipments := shipments db @
                         [\<lparr>s_id = next_uuid db, s_line_item_id = itemId, s_quantity = q,
                           s_ship_date = shipDate, s_tracking_number = trackingNumber,
                           s_notes = notes, s_created_at = t, s_created_by = user\<rparr>],
                        next_uuid := Suc (next_uuid db)\<rparr>))"

text \<open>
  \<^verbatim>\<open>UPDATE order_line_items SET shipped_quantity = $1, date_shipped = CASE WHEN $2
  THEN $3 ELSE date_shipped END, updated_at = CURRENT_TIMESTAMP WHERE id = $4 RETURNING *\<close>.
  \<open>None\<close> when \<^verbatim>\<open>$1\<close> is no \<^verbatim>\<open>numeric\<close>, does not fit the column or is negative. The
  result is the new database and the returned rows.
\<close>

definition ship_update_row :: "timestamp \<Rightarrow> dec2 \<Rightarrow> bool \<Rightarrow> date \<Rightarrow> line_item_row \<Rightarrow> line_item_row" where
  "ship_update_row t shipped isFullyShipped shipDate i =
     i\<lparr>oli_shipped_quantity := shipped,
       oli_date_shipped := (if isFullyShipped then Some shipDate else oli_date_shipped i),
       oli_updated_at := t\<rparr>"

definition update_shipped ::
  "timestamp \<Rightarrow> database \<Rightarrow> uuid \<Rightarrow> jsval \<Rightarrow> bool \<Rightarrow> date \<Rightarrow> (database \<times> line_item_row list) option" where
  "update_shipped t db itemId newShippedQuantity isFullyShipped shipDate =
     (case to_decimal_10_2 newShippedQuantity of
        None \<Rightarrow> None
      | Some shipped \<Rightarrow>
          if shipped < 0 \<and> itemId \<in> oli_id ` set (order_line_items db) then None
          else
            let db1 = db\<lparr>order_line_items :=
                        map (\<lambda>i. if oli_id i = itemId
                                  then ship_update_row t shipped isFullyShipped shipDate i
                                  else i)
                          (order_line_items db)\<rparr>;
                rows = filter (\<lambda>i. oli_id i = itemId) (order_line_items db1)
            in Some (fire_status_trigger t db1 rows, rows))"

text \<open>
  The handler, statement by statement. The two explicit \<^verbatim>\<open>ROLLBACK\<close>s and the one of the
  \<^verbatim>\<open>catch\<close> block give back the database of \<^verbatim>\<open>BEGIN\<close>; \<^verbatim>\<open>logAction\<close> runs after
  \<^verbatim>\<open>COMMIT\<close>. \<open>li_quantity\<close> and \<open>li_shipped_quantity\<close> are \<^verbatim>\<open>lineItem.quantity\<close> and
  \<^verbatim>\<open>lineItem.shipped_quantity\<close> as the driver delivers them.
\<close>

definition shipLineItem :: "env \<Rightarrow> database \<Rightarrow> uuid \<Rightarrow> uuid \<Rightarrow> ship_req \<Rightarrow> (error + ship_body) \<times> database" where
  "shipLineItem e db orderId itemId req =
     (let quantity = json_number (sh_quantity req);
          trackingNumber = map_option trim (sh_trackingNumber req);
          notes = map_option trim (sh_notes req)
      in
      if \<not> valid_ship req then (Inl ValidationError, db)
      else
        (case find (\<lambda>i. oli_id i = itemId \<and> oli_order_id i = orderId) (order_line_items db) of
           None \<Rightarrow> (Inl NotFound, db)
         | Some lineItem \<Rightarrow>
             let li_quantity = row_numeric (oli_quantity lineItem);
                 li_shipped_quantity = row_numeric (oli_shipped_quantity lineItem);
                 remainingQuantity = js_sub li_quantity li_shipped_quantity
             in
             if js_gt quantity remainingQuantity then (Inl OverShipment, db)
             else
               let shipDate = coalesce (sh_shipDate req) (today e) in
               (case insert_shipment (now e) db itemId quantity shipDate trackingNumber notes (sh_user req) of
                  None \<Rightarrow> (Inl InternalError, db)
                | Some db1 \<Rightarrow>
                    let newShippedQuantity = js_add li_shipped_quantity quantity;
                        isFullyShipped = js_ge newShippedQuantity li_quantity
                    in
                    (case update_shipped (now e) db1 itemId newShippedQuantity isFullyShipped shipDate of
                       None \<Rightarrow> (Inl InternalError, db)
                     | Some (db2, rows) \<Rightarrow>
                         let db3 = logAction e db2 (sh_user req) ''SHIP_ITEM'' ''order_line_items'' itemId
                                     (Some (LineItemSnap lineItem))
                                     (map_option LineItemSnap (first_row rows))
                         in (Inr \<lparr>sb_lineItem = first_row rows,
                                  sb_shippedQuantity = quantity,
                                  sb_remainingQuantity = js_sub li_quantity newShippedQuantity\<rparr>,
                             db3)))))"

subsection \<open>Predicates used in the statements\<close>

text \<open>
  \<open>only_editable_changed a b\<close>: the order row \<open>b\<close> is the row \<open>a\<close> except, at most, for
  \<^verbatim>\<open>po_number\<close>, \<^verbatim>\<open>due_date\<close>, \<^verbatim>\<open>quoted_ship_date\<close>, \<^verbatim>\<open>notes\<close> and \<^verbatim>\<open>updated_at\<close>:
  putting the five old values back into \<open>b\<close> gives \<open>a\<close>.
\<close>

definition only_editable_changed :: "order_row \<Rightarrow> order_row \<Rightarrow> bool" where
  "only_editable_changed a b =
     (b\<lparr>o_po_number := o_po_number a, o_due_date := o_due_date a,
        o_quoted_ship_date := o_quoted_ship_date a, o_notes := o_notes a,
        o_updated_at := o_updated_at a\<rparr> = a)"

definition updateOrder_changes :: "uuid \<Rightarrow> order_row \<Rightarrow> order_row \<Rightarrow> bool" where
  "updateOrder_changes ident a b = (only_editable_changed a b \<and> (o_id a = ident \<or> b = a))"

text \<open>
  \<open>production_changes a b\<close>: the line item \<open>b\<close> is \<open>a\<close> except, at most, for
  \<^verbatim>\<open>in_production\<close> and \<^verbatim>\<open>updated_at\<close>.
\<close>

definition production_changes :: "line_item_row \<Rightarrow> line_item_row \<Rightarrow> bool" where
  "production_changes a b =
     (b\<lparr>oli_in_production := oli_in_production a, oli_updated_at := oli_updated_at a\<rparr> = a)"

text \<open>
  The shipment state \<^verbatim>\<open>fully_shipped\<close> of the specification (section 4.3):
  \<^verbatim>\<open>date_shipped\<close> is set.
\<close>

definition fully_shipped :: "line_item_row \<Rightarrow> bool" where
  "fully_shipped i = (oli_date_shipped i \<noteq> None)"

text \<open>
  The recompute rule as the specification words it (section 4.4): no line items is
  pending; all fully shipped is shipped; else one in production or one with a positive
  shipped quantity is production; else pending.
\<close>

definition spec_order_status :: "line_item_row list \<Rightarrow> order_status" where
  "spec_order_status items =
     (if items = [] then Pending
      else if list_all fully_shipped items then Shipped
      else if list_ex oli_in_production items \<or> list_ex (\<lambda>i. 0 < oli_shipped_quantity i) items
      then Production
      else Pending)"

text \<open>
  The rule the trigger follows, in the same vocabulary: a partly shipped line item does
  not count, a fully shipped one does.
\<close>

definition derived_status :: "line_item_row list \<Rightarrow> order_status" where
  "derived_status items =
     (if list_all fully_shipped items then Shipped
      else if list_ex oli_in_production items \<or> list_ex fully_shipped items then Production
      else Pending)"

text \<open>The ids of the orders whose status is \<^verbatim>\<open>cancelled\<close>.\<close>

definition cancelled_ids :: "order_row list \<Rightarrow> uuid set" where
  "cancelled_ids os = set (map o_id (filter (\<lambda>ord. o_status ord = Cancelled) os))"

text \<open>
  \<open>line_item_raises ps item\<close>: the \<^verbatim>\<open>INSERT\<close> of this line item raises, whatever the
  order: its quantity does not fit \<^verbatim>\<open>DECIMAL(10,2)\<close> or is not positive once rounded, its
  part is not among the parts \<open>ps\<close>, or a text is too long for its column.
\<close>

definition line_item_raises :: "uuid list \<Rightarrow> line_item_input \<Rightarrow> bool" where
  "line_item_raises ps item =
     (case to_decimal_10_2 (json_number (li_quantity item)) of
        None \<Rightarrow> True
      | Some q \<Rightarrow>
          (case li_partId item of None \<Rightarrow> False | Some p \<Rightarrow> p \<notin> set ps) \<or>
          length (li_partNumber item) > 100 \<or>
          (case or_null (li_colors item) of None \<Rightarrow> False | Some c \<Rightarrow> length c > 255) \<or>
          q \<le> 0 \<or>
          li_unit item \<notin> set [''feet'', ''meters'', ''pieces''])"

text \<open>The audit rows that \<^verbatim>\<open>logAction\<close> writes for an order creation and for a shipment.\<close>

definition create_order_entry :: "create_order_req \<Rightarrow> order_row \<Rightarrow> audit_row" where
  "create_order_entry req order =
     \<lparr>a_user_id = co_user req, a_action = ''CREATE_ORDER'', a_table_name = ''orders'',
      a_record_id = o_id order, a_old_values = None, a_new_values = Some (OrderSnap order)\<rparr>"

definition ship_entry :: "database \<Rightarrow> uuid \<Rightarrow> uuid \<Rightarrow> ship_req \<Rightarrow> ship_body \<Rightarrow> audit_row" where
  "ship_entry db orderId itemId req body =
     \<lparr>a_user_id = sh_user req, a_action = ''SHIP_ITEM'', a_table_name = ''order_line_items'',
      a_record_id = itemId,
      a_old_values = map_option LineItemSnap
        (find (\<lambda>i. oli_id i = itemId \<and> oli_order_id i = orderId) (order_line_items db)),
      a_new_values = map_option LineItemSnap (sb_lineItem body)\<rparr>"

subsection \<open>A small database for the evaluations\<close>

text \<open>
  One active customer, no order yet; then the order \<^verbatim>\<open>PO-1\<close> with one line item of 100
  pieces, created through the handler (order id 10, line item id 11).
\<close>

definition demo_env :: env where
  "demo_env = \<lparr>now = 1, today = 20, audit_sink_ok = True\<rparr>"

definition demo_db :: database where
  "demo_db = \<lparr>customers = [(1, True)], parts = [], orders = [], order_line_items = [],
              shipments = [], audit_log = [], next_uuid = 10\<rparr>"

definition demo_item :: line_item_input where
  "demo_item = \<lparr>li_partId = None, li_partNumber = ''WG-001'',
                li_description = ''Wire Guard Standard'', li_colors = None,
                li_quantity = 100, li_unit = ''pieces''\<rparr>"

definition demo_create :: create_order_req where
  "demo_create = \<lparr>co_poNumber = ''PO-1'', co_customerId = 1, co_dueDate = None,
                  co_quotedShipDate = None, co_notes = None, co_lineItems = [demo_item],
                  co_user = 7\<rparr>"

definition demo_created :: database where
  "demo_created = snd (createOrder demo_env demo_db demo_create)"

definition demo_cancelled :: database where
  "demo_cancelled = snd (cancelOrder demo_env demo_created 7 10)"

definition demo_ship_40 :: ship_req where
  "demo_ship_40 = \<lparr>sh_quantity = 40, sh_shipDate = None, sh_trackingNumber = None,
                   sh_notes = None, sh_user = 7\<rparr>"


definition demo_ship_100 :: ship_req where
  "demo_ship_100 = demo_ship_40\<lparr>sh_quantity := 100\<rparr>"

text \<open>
  A line item of 100.00 of which 40.00 are shipped, not in production, and the database
  that holds it with its one shipment.
\<close>

definition partly_shipped_item :: line_item_row where
  "partly_shipped_item =
     \<lparr>oli_id = 11, oli_order_id = 10, oli_part_id = None, oli_part_number = ''WG-001'',
      oli_description = ''Wire Guard Standard'', oli_colors = None, oli_quantity = 10000,
      oli_unit = ''pieces'', oli_in_production = False, oli_shipped_quantity = 4000,
      oli_date_shipped = None, oli_created_at = 1, oli_updated_at = 2\<rparr>"

definition partly_shipped_db :: database where
  "partly_shipped_db =
     demo_created\<lparr>order_line_items := [partly_shipped_item],
                  shipments := [\<lparr>s_id = 12, s_line_item_id = 11, s_quantity = 4000,
                                s_ship_date = 20, s_tracking_number = None, s_notes = None,
                                s_created_at = 2, s_created_by = 7\<rparr>]\<rparr>"

text \<open>
  A second order for the same customer whose second line item names a part that does not
  exist, and the same database with the audit sink out of reach.
\<close>

definition demo_two_items :: create_order_req where
  "demo_two_items = demo_create\<lparr>co_poNumber := ''PO-2'',
       co_lineItems := [demo_item, demo_item\<lparr>li_partId := Some 99\<rparr>]\<rparr>"

definition demo_env_sink_down :: env where
  "demo_env_sink_down = demo_env\<lparr>audit_sink_ok := False\<rparr>"

text \<open>
  A third order: one line item of 10.00 pieces (order id 10, line item id 11); a shipment
  of 5 pieces without ship date, sent on the day \<open>d\<close>; and what the ledger of a database
  holds for each line item: id, order, quantity, shipped quantity, date shipped.
\<close>

definition demo_ten_created :: database where
  "demo_ten_created =
     snd (createOrder demo_env demo_db
            (demo_create\<lparr>co_lineItems := [demo_item\<lparr>li_quantity := 10\<rparr>]\<rparr>))"

definition demo_ship_5 :: ship_req where
  "demo_ship_5 = demo_ship_40\<lparr>sh_quantity := 5\<rparr>"

definition ship_5_on :: "date \<Rightarrow> database \<Rightarrow> database" where
  "ship_5_on d db = snd (shipLineItem (demo_env\<lparr>today := d\<rparr>) db 10 11 demo_ship_5)"

definition ledger :: "database \<Rightarrow> (uuid \<times> uuid \<times> dec2 \<times> dec2 \<times> date option) list" where
  "ledger db =
     map (\<lambda>i. (oli_id i, oli_order_id i, oli_quantity i, oli_shipped_quantity i, oli_date_shipped i))
       (order_line_items db)"




section \<open>Properties\<close>

subsection \<open>What the trigger and the audit helper touch\<close>

lemma update_order_status_eq:
  "update_order_status t db oid =
     db\<lparr>orders := set_order_status t oid
        (status_from_items (filter (\<lambda>i. oli_order_id i = oid) (order_line_items db))) (orders db)\<rparr>"
proof (cases "find (\<lambda>ord. o_id ord = oid) (orders db)")
  case None
  then have "\<forall>ord \<in> set (orders db). o_id ord \<noteq> oid"
    by (auto simp: find_None_iff)
  then have "set_order_status t oid st (orders db) = orders db" for st
    by (simp add: set_order_status_def map_idI)
  with None show ?thesis
    by (simp add: update_order_status_def)
next
  case (Some r)
  then have "o_id r = oid"
    by (auto simp: find_Some_iff)
  with Some show ?thesis
    by (simp add: update_order_status_def)
qed

lemma update_order_status_tables [simp]:
  "order_line_items (update_order_status t db oid) = order_line_items db"
  "shipments (update_order_status t db oid) = shipments db"
  "audit_log (update_order_status t db oid) = audit_log db"
  "customers (update_order_status t db oid) = customers db"
  "parts (update_order_status t db oid) = parts db"
  "next_uuid (update_order_status t db oid) = next_uuid db"
  by (simp_all add: update_order_status_eq)

lemma fire_status_trigger_tables [simp]:
  "order_line_items (fire_status_trigger t db rows) = order_line_items db"
  "shipments (fire_status_trigger t db rows) = shipments db"
  "audit_log (fire_status_trigger t db rows) = audit_log db"
  "customers (fire_status_trigger t db rows) = customers db"
  "parts (fire_status_trigger t db rows) = parts db"
  "next_uuid (fire_status_trigger t db rows) = next_uuid db"
  unfolding fire_status_trigger_def
  by (induction rows arbitrary: db) simp_all

lemma logAction_tables [simp]:
  "orders (logAction e db u a tn r ov nv) = orders db"
  "order_line_items (logAction e db u a tn r ov nv) = order_line_items db"
  "shipments (logAction e db u a tn r ov nv) = shipments db"
  "customers (logAction e db u a tn r ov nv) = customers db"
  "parts (logAction e db u a tn r ov nv) = parts db"
  "next_uuid (logAction e db u a tn r ov nv) = next_uuid db"
  by (simp_all add: logAction_def)

subsection \<open>updateOrder\<close>

lemma updateOrder_changes_refl: "updateOrder_changes ident a a"
  by (simp add: updateOrder_changes_def only_editable_changed_def)

lemma updateOrder_changes_updated:
  "o_id a = ident \<Longrightarrow> updateOrder_changes ident a (updated_order t p req a)"
  by (simp add: updateOrder_changes_def only_editable_changed_def updated_order_def)

text \<open>
  C9. Whatever the request holds and whatever the response is, updateOrder leaves every
  order row as it was except for \<^verbatim>\<open>po_number\<close>, \<^verbatim>\<open>due_date\<close>, \<^verbatim>\<open>quoted_ship_date\<close>,
  \<^verbatim>\<open>notes\<close> and \<^verbatim>\<open>updated_at\<close> of the order addressed (so its status, its customer and
  every other column stay), and leaves the line items, the shipments, the customers and
  the parts untouched.
\<close>

theorem updateOrder_frame:
  "list_all2 (updateOrder_changes ident) (orders db) (orders (snd (updateOrder e db ident req)))
   \<and> order_line_items (snd (updateOrder e db ident req)) = order_line_items db
   \<and> shipments (snd (updateOrder e db ident req)) = shipments db
   \<and> customers (snd (updateOrder e db ident req)) = customers db
   \<and> parts (snd (updateOrder e db ident req)) = parts db"
  by (auto simp: updateOrder_def Let_def list_all2_map2 updateOrder_changes_refl
        updateOrder_changes_updated
        intro!: list.rel_refl split: option.splits)

subsection \<open>The status rule and the handlers that fire it\<close>

lemma length_filter_eq_iff: "(length (filter P xs) = length xs) = list_all P xs"
proof -
  have "length (filter P xs) + length (filter (\<lambda>x. \<not> P x) xs) = length xs"
    by (rule sum_length_filter_compl)
  then have "(length (filter P xs) = length xs) = (length (filter (\<lambda>x. \<not> P x) xs) = 0)"
    by arith
  then show ?thesis
    by (simp add: list_all_iff filter_empty_conv)
qed

lemma status_from_items_derived:
  assumes "items \<noteq> []"
  shows "status_from_items items = derived_status items"
proof -
  let ?sh = "filter (\<lambda>i. oli_date_shipped i \<noteq> None) items"
  let ?pr = "filter (\<lambda>i. oli_in_production i \<and> oli_date_shipped i = None) items"
  have all: "(length ?sh = length items) = list_all fully_shipped items"
    by (simp add: length_filter_eq_iff fully_shipped_def[abs_def])
  have some: "(0 < length ?sh) = list_ex fully_shipped items"
    by (auto simp: fully_shipped_def list_ex_iff filter_empty_conv)
  have prod: "(0 < length ?pr \<or> 0 < length ?sh) =
                (list_ex oli_in_production items \<or> list_ex fully_shipped items)"
    by (auto simp: fully_shipped_def list_ex_iff filter_empty_conv)
  show ?thesis
    unfolding status_from_items_def derived_status_def Let_def
    using all prod by simp
qed

lemma status_from_items_empty: "status_from_items [] = Shipped"
  by (simp add: status_from_items_def)

lemma status_from_items_not_cancelled: "status_from_items items \<noteq> Cancelled"
  by (simp add: status_from_items_def Let_def)

lemma orders_after_update_order_status:
  "orders (update_order_status t db oid) =
     map (\<lambda>ord. if o_id ord = oid
                 then ord\<lparr>o_status := status_from_items
                                          (filter (\<lambda>i. oli_order_id i = oid) (order_line_items db)),
                          o_updated_at := t\<rparr>
                 else ord) (orders db)"
  by (simp add: update_order_status_eq set_order_status_def)

text \<open>
  C4, as amended. After the recomputation that a line-item insert, update or delete
  triggers, an order with at least one line item has the status: shipped when every line
  item has \<^verbatim>\<open>date_shipped\<close> set; otherwise production when at least one line item is in
  production or at least one has \<^verbatim>\<open>date_shipped\<close> set; otherwise pending. A positive
  \<^verbatim>\<open>shipped_quantity\<close> alone does not count. (The order's previous status plays no part.)
\<close>

theorem update_order_status_derived:
  assumes "ord \<in> set (orders (update_order_status t db oid))" and "o_id ord = oid"
    and "filter (\<lambda>i. oli_order_id i = oid) (order_line_items db) \<noteq> []"
  shows "o_status ord = derived_status (filter (\<lambda>i. oli_order_id i = oid) (order_line_items db))"
proof -
  let ?items = "filter (\<lambda>i. oli_order_id i = oid) (order_line_items db)"
  from assms(1) obtain x where x: "x \<in> set (orders db)"
    and ord: "ord = (if o_id x = oid
                     then x\<lparr>o_status := status_from_items ?items, o_updated_at := t\<rparr> else x)"
    by (auto simp: orders_after_update_order_status)
  from ord assms(2) have "o_id x = oid"
    by (simp split: if_splits)
  with ord have "o_status ord = status_from_items ?items"
    by simp
  with assms(3) show ?thesis
    by (simp add: status_from_items_derived)
qed

lemma orders_after_fire_status_trigger:
  "orders (fire_status_trigger t db rows) =
     map (\<lambda>ord. if o_id ord \<in> oli_order_id ` set rows
                 then ord\<lparr>o_status := status_from_items
                                          (filter (\<lambda>i. oli_order_id i = o_id ord) (order_line_items db)),
                          o_updated_at := t\<rparr>
                 else ord) (orders db)"
  unfolding fire_status_trigger_def
proof (induction rows arbitrary: db)
  case Nil
  show ?case by (simp add: map_idI)
next
  case (Cons r rows)
  show ?case
    by (simp add: Cons.IH orders_after_update_order_status)
qed


lemma in_orders_after_fire:
  assumes "ord' \<in> set (orders (fire_status_trigger t db rows))"
  obtains ord where "ord \<in> set (orders db)" "o_id ord' = o_id ord"
    "o_id ord \<notin> oli_order_id ` set rows \<Longrightarrow> ord' = ord"
    "o_id ord \<in> oli_order_id ` set rows \<Longrightarrow>
       o_status ord' = status_from_items
                         (filter (\<lambda>i. oli_order_id i = o_id ord) (order_line_items db))"
proof -
  let ?F = "\<lambda>ord. if o_id ord \<in> oli_order_id ` set rows
                 then ord\<lparr>o_status := status_from_items
                                          (filter (\<lambda>i. oli_order_id i = o_id ord) (order_line_items db)),
                          o_updated_at := t\<rparr>
                 else ord"
  from assms obtain x where x: "x \<in> set (orders db)" and eq: "ord' = ?F x"
    by (auto simp: orders_after_fire_status_trigger)
  show thesis
  proof (rule that[of x])
    show "x \<in> set (orders db)" by (rule x)
    show "o_id ord' = o_id x" by (simp add: eq)
    show "ord' = x" if "o_id x \<notin> oli_order_id ` set rows"
      using that by (simp add: eq)
    show "o_status ord' = status_from_items
            (filter (\<lambda>i. oli_order_id i = o_id x) (order_line_items db))"
      if "o_id x \<in> oli_order_id ` set rows"
      using that by (simp add: eq)
  qed
qed

lemma cancelled_ids_fire:
  "cancelled_ids (orders (fire_status_trigger t db rows)) \<subseteq> cancelled_ids (orders db)"
proof
  fix k assume "k \<in> cancelled_ids (orders (fire_status_trigger t db rows))"
  then obtain ord' where ord': "ord' \<in> set (orders (fire_status_trigger t db rows))"
    "o_status ord' = Cancelled" "o_id ord' = k"
    by (auto simp: cancelled_ids_def)
  from ord'(1) obtain ord where ord: "ord \<in> set (orders db)" "o_id ord' = o_id ord"
    "o_id ord \<notin> oli_order_id ` set rows \<Longrightarrow> ord' = ord"
    "o_id ord \<in> oli_order_id ` set rows \<Longrightarrow>
       o_status ord' = status_from_items
                         (filter (\<lambda>i. oli_order_id i = o_id ord) (order_line_items db))"
    by (rule in_orders_after_fire) blast
  have "o_id ord \<notin> oli_order_id ` set rows"
    using ord(4) ord'(2) status_from_items_not_cancelled by metis
  then have "ord' = ord"
    by (rule ord(3))
  with ord(1) ord'(2,3) show "k \<in> cancelled_ids (orders db)"
    by (auto simp: cancelled_ids_def)
qed

lemma cancelled_ids_update_order_status:
  "oid \<notin> cancelled_ids (orders (update_order_status t db oid))"
proof
  assume "oid \<in> cancelled_ids (orders (update_order_status t db oid))"
  then obtain ord' where ord': "ord' \<in> set (orders (update_order_status t db oid))"
    "o_status ord' = Cancelled" "o_id ord' = oid"
    by (auto simp: cancelled_ids_def)
  from ord'(1) obtain x where x: "x \<in> set (orders db)"
    and eq: "ord' = (if o_id x = oid
                     then x\<lparr>o_status := status_from_items
                                (filter (\<lambda>i. oli_order_id i = oid) (order_line_items db)),
                            o_updated_at := t\<rparr> else x)"
    by (auto simp: orders_after_update_order_status)
  from eq ord'(3) have "o_id x = oid"
    by (simp split: if_splits)
  with eq have "o_status ord' = status_from_items
                  (filter (\<lambda>i. oli_order_id i = oid) (order_line_items db))"
    by simp
  with ord'(2) show False
    using status_from_items_not_cancelled by metis
qed

lemma insert_shipment_Some:
  assumes "insert_shipment t db itemId q d tn n u = Some db1"
  shows "orders db1 = orders db" "order_line_items db1 = order_line_items db"
    "audit_log db1 = audit_log db" "customers db1 = customers db" "parts db1 = parts db"
    "\<exists>row. shipments db1 = shipments db @ [row] \<and> s_line_item_id row = itemId \<and>
           to_decimal_10_2 q = Some (s_quantity row)"
  using assms
  by (auto simp: insert_shipment_def split: option.splits if_splits)

lemma update_shipped_Some:
  assumes "update_shipped t db itemId new full d = Some (db2, rows)"
  shows "\<exists>shipped. to_decimal_10_2 new = Some shipped \<and>
           order_line_items db2 =
             map (\<lambda>i. if oli_id i = itemId then ship_update_row t shipped full d i else i)
               (order_line_items db) \<and>
           rows = filter (\<lambda>i. oli_id i = itemId) (order_line_items db2) \<and>
           db2 = fire_status_trigger t (db\<lparr>order_line_items := order_line_items db2\<rparr>) rows"
  using assms
  by (auto simp: update_shipped_def Let_def split: option.splits if_splits)

lemma shipLineItem_cases:
  obtains (fail) err where "shipLineItem e db orderId itemId req = (Inl err, db)"
  | (ok) lineItem db1 db2 rows where
      "valid_ship req"
      "find (\<lambda>i. oli_id i = itemId \<and> oli_order_id i = orderId) (order_line_items db) = Some lineItem"
      "\<not> js_gt (json_number (sh_quantity req))
           (js_sub (row_numeric (oli_quantity lineItem)) (row_numeric (oli_shipped_quantity lineItem)))"
      "insert_shipment (now e) db itemId (json_number (sh_quantity req))
         (coalesce (sh_shipDate req) (today e))
         (map_option trim (sh_trackingNumber req)) (map_option trim (sh_notes req)) (sh_user req) = Some db1"
      "update_shipped (now e) db1 itemId
         (js_add (row_numeric (oli_shipped_quantity lineItem)) (json_number (sh_quantity req)))
         (js_ge (js_add (row_numeric (oli_shipped_quantity lineItem)) (json_number (sh_quantity req)))
                (row_numeric (oli_quantity lineItem)))
         (coalesce (sh_shipDate req) (today e)) = Some (db2, rows)"
      "shipLineItem e db orderId itemId req =
         (Inr \<lparr>sb_lineItem = first_row rows, sb_shippedQuantity = json_number (sh_quantity req),
               sb_remainingQuantity =
                 js_sub (row_numeric (oli_quantity lineItem))
                   (js_add (row_numeric (oli_shipped_quantity lineItem)) (json_number (sh_quantity req)))\<rparr>,
          logAction e db2 (sh_user req) ''SHIP_ITEM'' ''order_line_items'' itemId
            (Some (LineItemSnap lineItem)) (map_option LineItemSnap (first_row rows)))"
  by (fastforce simp: shipLineItem_def Let_def split: option.splits if_splits)


lemma insert_order_Some:
  assumes "insert_order t db poNumber req = Some (db1, order)"
  shows "orders db1 = orders db @ [order]" "o_status order = Pending"
    "order_line_items db1 = order_line_items db" "shipments db1 = shipments db"
    "audit_log db1 = audit_log db" "customers db1 = customers db" "parts db1 = parts db"
  using assms
  by (auto simp: insert_order_def Let_def split: if_splits)

lemma insert_line_item_Some:
  assumes "insert_line_item t db oid item = Some (db', row)"
  shows "order_line_items db' = order_line_items db @ [row]"
    "orders db' = orders (fire_status_trigger t (db\<lparr>order_line_items := order_line_items db @ [row]\<rparr>) [row])"
    "shipments db' = shipments db" "audit_log db' = audit_log db"
    "customers db' = customers db" "parts db' = parts db"
    "oli_order_id row = oid" "oli_date_shipped row = None" "oli_shipped_quantity row = 0"
  using assms
  by (auto simp: insert_line_item_def Let_def orders_after_fire_status_trigger
           split: option.splits if_splits)

lemma insert_line_items_Some:
  assumes "insert_line_items t db oid items = Some (db', rows)"
  shows "order_line_items db' = order_line_items db @ rows \<and>
    cancelled_ids (orders db') \<subseteq> cancelled_ids (orders db) \<and>
    shipments db' = shipments db \<and> audit_log db' = audit_log db \<and>
    customers db' = customers db \<and> parts db' = parts db"
  using assms
proof (induction items arbitrary: db rows)
  case Nil
  then show ?case by simp
next
  case (Cons item items)
  from Cons.prems obtain db1 row rows' where
    one: "insert_line_item t db oid item = Some (db1, row)" and
    rest: "insert_line_items t db1 oid items = Some (db', rows')" and
    rows: "rows = row # rows'"
    by (auto split: option.splits)
  note a = insert_line_item_Some[OF one]
  note b = Cons.IH[OF rest]
  have "cancelled_ids (orders db1) \<subseteq> cancelled_ids (orders db)"
  proof -
    have "cancelled_ids (orders db1) \<subseteq>
            cancelled_ids (orders (db\<lparr>order_line_items := order_line_items db @ [row]\<rparr>))"
      unfolding a(2) by (rule cancelled_ids_fire)
    then show ?thesis by simp
  qed
  with a b rows show ?case
    by auto
qed

lemma createOrder_cases:
  obtains (fail) err where "createOrder e db req = (Inl err, db)"
  | (ok) db1 order db2 created where
      "valid_create_order req"
      "insert_order (now e) db (trim (co_poNumber req)) req = Some (db1, order)"
      "insert_line_items (now e) db1 (o_id order) (map sanitize_item (co_lineItems req)) = Some (db2, created)"
      "createOrder e db req =
         (Inr (order, created),
          logAction e db2 (co_user req) ''CREATE_ORDER'' ''orders'' (o_id order)
            None (Some (OrderSnap order)))"
  by (fastforce simp: createOrder_def Let_def split: option.splits if_splits)

lemma cancelled_ids_append_pending:
  "o_status ord = Pending \<Longrightarrow> cancelled_ids (os @ [ord]) = cancelled_ids os"
  by (auto simp: cancelled_ids_def)

lemma createOrder_cancelled:
  "cancelled_ids (orders (snd (createOrder e db req))) \<subseteq> cancelled_ids (orders db)"
proof (cases rule: createOrder_cases[of e db req])
  case (fail err)
  then show ?thesis by simp
next
  case (ok db1 order db2 created)
  note a = insert_order_Some[OF ok(2)]
  note b = insert_line_items_Some[OF ok(3)]
  have "cancelled_ids (orders db1) = cancelled_ids (orders db)"
    by (simp add: a(1,2) cancelled_ids_append_pending)
  with b ok(4) show ?thesis
    by simp
qed

lemma updateOrder_cancelled:
  "cancelled_ids (orders (snd (updateOrder e db ident req))) = cancelled_ids (orders db)"
proof -
  have "map (\<lambda>ord. (o_id ord, o_status ord)) (orders (snd (updateOrder e db ident req))) =
        map (\<lambda>ord. (o_id ord, o_status ord)) (orders db)"
    by (auto simp: updateOrder_def Let_def updated_order_def split: option.splits)
  then have "(\<lambda>ord. (o_id ord, o_status ord)) ` set (orders (snd (updateOrder e db ident req))) =
        (\<lambda>ord. (o_id ord, o_status ord)) ` set (orders db)"
    by (metis set_map)
  moreover have "cancelled_ids os = fst ` {p \<in> (\<lambda>ord. (o_id ord, o_status ord)) ` set os. snd p = Cancelled}" for os
    by (force simp: cancelled_ids_def)
  ultimately show ?thesis
    by simp
qed

lemma setInProduction_cancelled:
  "cancelled_ids (orders (snd (setInProduction e db u orderId itemId))) \<subseteq> cancelled_ids (orders db)"
proof (cases "find (\<lambda>i. oli_id i = itemId \<and> oli_order_id i = orderId) (order_line_items db)")
  case None
  then show ?thesis by (simp add: setInProduction_def)
next
  case (Some x)
  let ?db1 = "db\<lparr>order_line_items :=
                      map (\<lambda>i. if oli_id i = itemId
                                then i\<lparr>oli_in_production := True, oli_updated_at := now e\<rparr> else i)
                        (order_line_items db)\<rparr>"
  have "cancelled_ids (orders (fire_status_trigger (now e) ?db1 rows)) \<subseteq> cancelled_ids (orders ?db1)" for rows
    by (rule cancelled_ids_fire)
  with Some show ?thesis
    by (simp add: setInProduction_def Let_def)
qed

lemma shipLineItem_cancelled:
  "cancelled_ids (orders (snd (shipLineItem e db orderId itemId req))) \<subseteq> cancelled_ids (orders db)"
proof (cases rule: shipLineItem_cases[of e db orderId itemId req])
  case (fail err)
  then show ?thesis by simp
next
  case (ok lineItem db1 db2 rows)
  note a = insert_shipment_Some[OF ok(4)]
  from update_shipped_Some[OF ok(5)] obtain items' where
    "db2 = fire_status_trigger (now e) (db1\<lparr>order_line_items := items'\<rparr>) rows"
    by blast
  then have "cancelled_ids (orders db2) \<subseteq> cancelled_ids (orders (db1\<lparr>order_line_items := items'\<rparr>))"
    by (simp only: cancelled_ids_fire)
  with a(1) ok(6) show ?thesis
    by simp
qed

lemma cancelOrder_cancelled:
  "cancelled_ids (orders (snd (cancelOrder e db u ident))) =
     cancelled_ids (orders db) \<union> ({ident} \<inter> o_id ` set (orders db))"
proof (cases "find (\<lambda>ord. o_id ord = ident) (orders db)")
  case None
  then have "ident \<notin> o_id ` set (orders db)"
    by (auto simp: find_None_iff)
  with None show ?thesis
    by (simp add: cancelOrder_def)
next
  case (Some x)
  then have "ident \<in> o_id ` set (orders db)"
    by (auto simp: find_Some_iff)
  moreover have "cancelled_ids (set_order_status t ident Cancelled os) =
      cancelled_ids os \<union> ({ident} \<inter> o_id ` set os)" for t os
    by (induction os) (auto simp: cancelled_ids_def set_order_status_def)
  ultimately show ?thesis
    using Some by (simp add: cancelOrder_def Let_def)
qed

lemma fire_sets_status:
  assumes "ord \<in> set (orders (fire_status_trigger t db rows))"
    and "o_id ord \<in> oli_order_id ` set rows"
  shows "o_status ord =
    status_from_items (filter (\<lambda>i. oli_order_id i = o_id ord) (order_line_items db))"
proof -
  from assms(1) obtain ord0 where ord0: "ord0 \<in> set (orders db)" "o_id ord = o_id ord0"
    "o_id ord0 \<notin> oli_order_id ` set rows \<Longrightarrow> ord = ord0"
    "o_id ord0 \<in> oli_order_id ` set rows \<Longrightarrow>
       o_status ord = status_from_items
                        (filter (\<lambda>i. oli_order_id i = o_id ord0) (order_line_items db))"
    by (rule in_orders_after_fire) blast
  from assms(2) ord0(2) have "o_id ord0 \<in> oli_order_id ` set rows"
    by simp
  then have "o_status ord = status_from_items
                        (filter (\<lambda>i. oli_order_id i = o_id ord0) (order_line_items db))"
    by (rule ord0(4))
  with ord0(2) show ?thesis
    by simp
qed

text \<open>
  The two handlers that update a line item leave the order in step with the rule: after a
  successful setInProduction or shipLineItem, the order addressed has the status that
  \<open>derived_status\<close> gives for its line items as they are now, whatever its status was.
\<close>

lemma setInProduction_status:
  assumes ok: "fst (setInProduction e db u orderId itemId) = Inr r"
    and ord: "ord \<in> set (orders (snd (setInProduction e db u orderId itemId)))" "o_id ord = orderId"
  shows "o_status ord =
    derived_status (filter (\<lambda>i. oli_order_id i = orderId)
                      (order_line_items (snd (setInProduction e db u orderId itemId))))"
proof -
  let ?upd = "\<lambda>i. if oli_id i = itemId
                   then i\<lparr>oli_in_production := True, oli_updated_at := now e\<rparr> else i"
  let ?db1 = "db\<lparr>order_line_items := map ?upd (order_line_items db)\<rparr>"
  let ?rows = "filter (\<lambda>i. oli_id i = itemId) (order_line_items ?db1)"
  from ok obtain x where
    f: "find (\<lambda>i. oli_id i = itemId \<and> oli_order_id i = orderId) (order_line_items db) = Some x"
    by (cases "find (\<lambda>i. oli_id i = itemId \<and> oli_order_id i = orderId) (order_line_items db)")
       (simp_all add: setInProduction_def)
  then have x: "x \<in> set (order_line_items db)" "oli_id x = itemId" "oli_order_id x = orderId"
    by (auto simp: find_Some_iff)
  have res: "orders (snd (setInProduction e db u orderId itemId)) =
               orders (fire_status_trigger (now e) ?db1 ?rows)"
    "order_line_items (snd (setInProduction e db u orderId itemId)) = order_line_items ?db1"
    using f by (simp_all add: setInProduction_def Let_def)
  have in_rows: "?upd x \<in> set ?rows"
    using x by auto
  have oid: "oli_order_id (?upd x) = orderId"
    using x by simp
  have trig: "orderId \<in> oli_order_id ` set ?rows"
    by (rule image_eqI[where f=oli_order_id, OF oid[symmetric] in_rows])
  have "?upd x \<in> set (filter (\<lambda>i. oli_order_id i = orderId) (order_line_items ?db1))"
    using x by auto
  then have ne: "filter (\<lambda>i. oli_order_id i = orderId) (order_line_items ?db1) \<noteq> []"
    by (rule contrapos_pn) simp
  have o: "ord \<in> set (orders (fire_status_trigger (now e) ?db1 ?rows))"
    using ord(1) unfolding res(1) .
  have t': "o_id ord \<in> oli_order_id ` set ?rows"
    unfolding ord(2) by (rule trig)
  have "o_status ord =
    status_from_items (filter (\<lambda>i. oli_order_id i = o_id ord) (order_line_items ?db1))"
    by (rule fire_sets_status[OF o t'])
  then show ?thesis
    unfolding res using ne ord(2) by (simp add: status_from_items_derived)
qed

lemma shipLineItem_status:
  assumes ok: "fst (shipLineItem e db orderId itemId req) = Inr body"
    and ord: "ord \<in> set (orders (snd (shipLineItem e db orderId itemId req)))" "o_id ord = orderId"
  shows "o_status ord =
    derived_status (filter (\<lambda>i. oli_order_id i = orderId)
                      (order_line_items (snd (shipLineItem e db orderId itemId req))))"
proof (cases rule: shipLineItem_cases[of e db orderId itemId req])
  case (fail err)
  with ok show ?thesis by simp
next
  case (ok lineItem db1 db2 rows)
  from ok(2) have x: "lineItem \<in> set (order_line_items db)" "oli_id lineItem = itemId"
    "oli_order_id lineItem = orderId"
    by (auto simp: find_Some_iff)
  from update_shipped_Some[OF ok(5)] obtain shipped where
    items: "order_line_items db2 =
       map (\<lambda>i. if oli_id i = itemId
                 then ship_update_row (now e) shipped
                        (js_ge (js_add (row_numeric (oli_shipped_quantity lineItem)) (json_number (sh_quantity req)))
                               (row_numeric (oli_quantity lineItem)))
                        (coalesce (sh_shipDate req) (today e)) i
                 else i)
         (order_line_items db1)"
    and rows: "rows = filter (\<lambda>i. oli_id i = itemId) (order_line_items db2)"
    and db2: "db2 = fire_status_trigger (now e) (db1\<lparr>order_line_items := order_line_items db2\<rparr>) rows"
    by blast
  let ?upd = "\<lambda>i. if oli_id i = itemId
                 then ship_update_row (now e) shipped
                        (js_ge (js_add (row_numeric (oli_shipped_quantity lineItem)) (json_number (sh_quantity req)))
                               (row_numeric (oli_quantity lineItem)))
                        (coalesce (sh_shipDate req) (today e)) i
                 else i"
  have same: "order_line_items db1 = order_line_items db"
    by (rule insert_shipment_Some(2)[OF ok(4)])
  have u: "?upd lineItem \<in> set (order_line_items db2)"
    unfolding items same set_map using x(1) by (rule imageI)
  have uid: "oli_id (?upd lineItem) = itemId" "oli_order_id (?upd lineItem) = orderId"
    using x by (simp_all add: ship_update_row_def)
  from u uid have in_rows: "?upd lineItem \<in> set rows"
    unfolding rows by simp
  have trig: "orderId \<in> oli_order_id ` set rows"
    by (rule image_eqI[where f=oli_order_id, OF uid(2)[symmetric] in_rows])
  from u uid(2) have "?upd lineItem \<in> set (filter (\<lambda>i. oli_order_id i = orderId) (order_line_items db2))"
    by simp
  then have ne: "filter (\<lambda>i. oli_order_id i = orderId) (order_line_items db2) \<noteq> []"
    by (rule contrapos_pn) simp
  have o: "ord \<in> set (orders (fire_status_trigger (now e) (db1\<lparr>order_line_items := order_line_items db2\<rparr>) rows))"
    using ord(1) ok(6) db2 by simp
  have t': "o_id ord \<in> oli_order_id ` set rows"
    unfolding ord(2) by (rule trig)
  have "o_status ord =
    status_from_items (filter (\<lambda>i. oli_order_id i = o_id ord)
       (order_line_items (db1\<lparr>order_line_items := order_line_items db2\<rparr>)))"
    by (rule fire_sets_status[OF o t'])
  then show ?thesis
    using ne ord(2) ok(6) by (simp add: status_from_items_derived)
qed

theorem update_order_status_derived_witness:
  "hd (orders (update_order_status 2 partly_shipped_db 10))
     \<in> set (orders (update_order_status 2 partly_shipped_db 10)) \<and>
   o_id (hd (orders (update_order_status 2 partly_shipped_db 10))) = 10 \<and>
   filter (\<lambda>i. oli_order_id i = 10) (order_line_items partly_shipped_db) \<noteq> [] \<and>
   o_status (hd (orders (update_order_status 2 partly_shipped_db 10))) =
     derived_status (filter (\<lambda>i. oli_order_id i = 10) (order_line_items partly_shipped_db))"
proof -
  have h1: "hd (orders (update_order_status 2 partly_shipped_db 10))
              \<in> set (orders (update_order_status 2 partly_shipped_db 10))"
    by code_simp
  have h2: "o_id (hd (orders (update_order_status 2 partly_shipped_db 10))) = 10"
    by code_simp
  have h3: "filter (\<lambda>i. oli_order_id i = 10) (order_line_items partly_shipped_db) \<noteq> []"
    by code_simp
  from update_order_status_derived[OF h1 h2 h3] h1 h2 h3 show ?thesis
    by simp
qed

text \<open>
  The claim as stated fails on a partly shipped line item: 40.00 of 100.00 shipped, not in
  production, \<^verbatim>\<open>date_shipped\<close> null. The specification's rule says production; the
  trigger leaves the order pending.
\<close>

theorem partly_shipped_counterexample:
  "map o_status (orders (update_order_status 2 partly_shipped_db 10)) = [Pending] \<and>
   spec_order_status (filter (\<lambda>i. oli_order_id i = 10) (order_line_items partly_shipped_db))
     = Production"
  by code_simp

text \<open>
  C5, as amended. Only cancelOrder makes an order cancelled: the status rule never yields
  cancelled, and createOrder, updateOrder, setInProduction and shipLineItem leave no order
  cancelled that was not cancelled before; cancelOrder cancels exactly the order addressed.
  Cancelled is not terminal: after the recomputation for an order, triggered by any
  insert, update or delete of one of its line items, that order is not cancelled.
\<close>

theorem cancelled_only_by_cancelOrder:
  "status_from_items items \<noteq> Cancelled
   \<and> cancelled_ids (orders (snd (createOrder e db cr))) \<subseteq> cancelled_ids (orders db)
   \<and> cancelled_ids (orders (snd (updateOrder e db oid ur))) = cancelled_ids (orders db)
   \<and> cancelled_ids (orders (snd (setInProduction e db u oid iid))) \<subseteq> cancelled_ids (orders db)
   \<and> cancelled_ids (orders (snd (shipLineItem e db oid iid sr))) \<subseteq> cancelled_ids (orders db)
   \<and> cancelled_ids (orders (snd (cancelOrder e db u oid))) =
       cancelled_ids (orders db) \<union> ({oid} \<inter> o_id ` set (orders db))
   \<and> oid \<notin> cancelled_ids (orders (update_order_status t db oid))"
  by (intro conjI status_from_items_not_cancelled createOrder_cancelled updateOrder_cancelled
      setInProduction_cancelled shipLineItem_cancelled cancelOrder_cancelled
      cancelled_ids_update_order_status)

text \<open>
  The claim as stated fails: the order of the demo database is cancelled, then one of its
  line items is set to production; the trigger makes the order \<^verbatim>\<open>production\<close> again.
\<close>

theorem cancelled_overwritten_counterexample:
  "map o_status (orders demo_cancelled) = [Cancelled] \<and>
   map o_status (orders (snd (setInProduction demo_env demo_cancelled 7 10 11))) = [Production]"
  by code_simp

subsection \<open>setInProduction\<close>

lemma setInProduction_items:
  "order_line_items (snd (setInProduction e db u orderId itemId)) =
     (if \<exists>i \<in> set (order_line_items db). oli_id i = itemId \<and> oli_order_id i = orderId
      then map (\<lambda>i. if oli_id i = itemId
                      then i\<lparr>oli_in_production := True, oli_updated_at := now e\<rparr> else i)
             (order_line_items db)
      else order_line_items db)"
proof (cases "find (\<lambda>i. oli_id i = itemId \<and> oli_order_id i = orderId) (order_line_items db)")
  case None
  then have "\<not> (\<exists>i \<in> set (order_line_items db). oli_id i = itemId \<and> oli_order_id i = orderId)"
    by (auto simp: find_None_iff)
  with None show ?thesis
    by (auto simp: setInProduction_def)
next
  case (Some x)
  then have "\<exists>i \<in> set (order_line_items db). oli_id i = itemId \<and> oli_order_id i = orderId"
    by (auto simp: find_Some_iff)
  with Some show ?thesis
    by (auto simp: setInProduction_def Let_def)
qed

lemma setInProduction_found_again:
  assumes "\<exists>i \<in> set (order_line_items db). oli_id i = itemId \<and> oli_order_id i = orderId"
  shows "\<exists>i \<in> set (order_line_items (snd (setInProduction e db u orderId itemId))).
           oli_id i = itemId \<and> oli_order_id i = orderId"
proof -
  from assms obtain i where i: "i \<in> set (order_line_items db)" "oli_id i = itemId" "oli_order_id i = orderId"
    by blast
  let ?f = "\<lambda>i. if oli_id i = itemId then i\<lparr>oli_in_production := True, oli_updated_at := now e\<rparr> else i"
  have "?f i \<in> set (map ?f (order_line_items db))"
    using i(1) by simp
  moreover have "oli_id (?f i) = itemId" "oli_order_id (?f i) = orderId"
    using i by simp_all
  ultimately show ?thesis
    using assms by (subst setInProduction_items) (simp only: if_True, blast)
qed

text \<open>
  C10. For a line item of the given order: a call of setInProduction leaves every line
  item as it was except for \<^verbatim>\<open>in_production\<close> and \<^verbatim>\<open>updated_at\<close>; after it the line item
  is in production; and a second call changes nothing but \<^verbatim>\<open>updated_at\<close> of that line
  item, which it stamps again: the line items after two calls are those after one call
  with the later timestamp.
\<close>

theorem setInProduction_idempotent:
  assumes "\<exists>i \<in> set (order_line_items db). oli_id i = itemId \<and> oli_order_id i = orderId"
  shows "list_all2 production_changes (order_line_items db)
           (order_line_items (snd (setInProduction e db u orderId itemId)))
       \<and> list_all oli_in_production
           (filter (\<lambda>i. oli_id i = itemId)
              (order_line_items (snd (setInProduction e db u orderId itemId))))
       \<and> order_line_items
           (snd (setInProduction e' (snd (setInProduction e db u orderId itemId)) u' orderId itemId)) =
         map (\<lambda>i. if oli_id i = itemId then i\<lparr>oli_updated_at := now e'\<rparr> else i)
           (order_line_items (snd (setInProduction e db u orderId itemId)))"
proof (intro conjI)
  show "list_all2 production_changes (order_line_items db)
           (order_line_items (snd (setInProduction e db u orderId itemId)))"
    by (auto simp: setInProduction_items list_all2_map2 production_changes_def intro!: list.rel_refl)
  show "list_all oli_in_production
           (filter (\<lambda>i. oli_id i = itemId)
              (order_line_items (snd (setInProduction e db u orderId itemId))))"
    using assms by (auto simp: setInProduction_items list_all_iff)
  have again: "\<exists>i \<in> set (order_line_items (snd (setInProduction e db u orderId itemId))).
           oli_id i = itemId \<and> oli_order_id i = orderId"
    using assms by (rule setInProduction_found_again)
  show "order_line_items
           (snd (setInProduction e' (snd (setInProduction e db u orderId itemId)) u' orderId itemId)) =
         map (\<lambda>i. if oli_id i = itemId then i\<lparr>oli_updated_at := now e'\<rparr> else i)
           (order_line_items (snd (setInProduction e db u orderId itemId)))"
    apply (subst setInProduction_items)
    apply (simp only: again if_True)
    using assms apply (simp add: setInProduction_items)
    done
qed

theorem setInProduction_idempotent_witness:
  "(\<exists>i \<in> set (order_line_items demo_created). oli_id i = 11 \<and> oli_order_id i = 10)
   \<and> list_all2 production_changes (order_line_items demo_created)
        (order_line_items (snd (setInProduction demo_env demo_created 7 10 11)))
   \<and> list_all oli_in_production
        (filter (\<lambda>i. oli_id i = 11)
           (order_line_items (snd (setInProduction demo_env demo_created 7 10 11))))
   \<and> order_line_items
        (snd (setInProduction (demo_env\<lparr>now := 5\<rparr>)
               (snd (setInProduction demo_env demo_created 7 10 11)) 7 10 11)) =
      map (\<lambda>i. if oli_id i = 11 then i\<lparr>oli_updated_at := now (demo_env\<lparr>now := 5\<rparr>)\<rparr> else i)
        (order_line_items (snd (setInProduction demo_env demo_created 7 10 11)))"
proof -
  have h: "\<exists>i \<in> set (order_line_items demo_created). oli_id i = 11 \<and> oli_order_id i = 10"
    by code_simp
  from setInProduction_idempotent[OF h, of demo_env 7 "demo_env\<lparr>now := 5\<rparr>" 7] h show ?thesis
    by blast
qed

subsection \<open>Rounding to a double\<close>

text \<open>
  What the statements below need of \<open>to_double\<close>: it is monotone, it commutes with the
  sign, and it moves a number by at most one part in \<open>2 ^ 53\<close> (half a unit of the
  last place), or by half the subnormal spacing.
\<close>

lemma scale2_eq: "scale2 m e = of_int m * 2 powi e"
proof (cases "0 \<le> e")
  case True
  then have "(2::rat) powi e = 2 ^ nat e"
    by (rule power_int_nonneg_exp)
  with True show ?thesis
    by (simp only: scale2_def if_True of_int_mult of_int_power of_int_numeral)
next
  case False
  then have "(2::rat) powi e = inverse 2 ^ nat (- e)"
    by (simp only: power_int_def if_False)
  then have "(2::rat) powi e = 1 / 2 ^ nat (- e)"
    by (simp only: power_inverse inverse_eq_divide power_one_over)
  with False show ?thesis
    by (simp only: scale2_def if_False Fract_of_int_quotient of_int_power of_int_numeral
          times_divide_eq_right mult_1_right)
qed

lemma scale2_one: "scale2 1 e = 2 powi e"
  by (simp add: scale2_eq)


lemma round_half_even_le: "y \<le> of_int n \<Longrightarrow> round_half_even y \<le> n"
proof -
  assume a: "y \<le> of_int n"
  have f: "\<lfloor>y\<rfloor> \<le> n"
    using a by (simp add: floor_le_iff) 
  show ?thesis
  proof (cases "\<lfloor>y\<rfloor> = n")
    case True
    with a have "y = of_int \<lfloor>y\<rfloor>"
      by (metis floor_of_int of_int_floor_le order_antisym)
    then have "y - of_int \<lfloor>y\<rfloor> = 0" by simp
    then show ?thesis
      unfolding round_half_even_def Let_def using True by simp
  next
    case False
    with f have "\<lfloor>y\<rfloor> + 1 \<le> n" by simp
    then show ?thesis
      unfolding round_half_even_def Let_def by auto
  qed
qed

lemma round_half_even_ge: "of_int n \<le> y \<Longrightarrow> n \<le> round_half_even y"
proof -
  assume "of_int n \<le> y"
  then have "n \<le> \<lfloor>y\<rfloor>"
    by (simp add: le_floor_iff)
  then show ?thesis
    unfolding round_half_even_def Let_def by auto
qed

lemma round_half_even_mono: "x \<le> y \<Longrightarrow> round_half_even x \<le> round_half_even y"
proof -
  assume xy: "x \<le> y"
  then have f: "\<lfloor>x\<rfloor> \<le> \<lfloor>y\<rfloor>"
    by (rule floor_mono)
  show ?thesis
  proof (cases "\<lfloor>x\<rfloor> = \<lfloor>y\<rfloor>")
    case True
    with xy have "x - of_int \<lfloor>x\<rfloor> \<le> y - of_int \<lfloor>y\<rfloor>" by simp
    then show ?thesis
      unfolding round_half_even_def Let_def using True by auto
  next
    case False
    with f have "\<lfloor>x\<rfloor> + 1 \<le> \<lfloor>y\<rfloor>" by simp
    moreover have "round_half_even x \<le> \<lfloor>x\<rfloor> + 1"
      unfolding round_half_even_def Let_def by auto
    moreover have "\<lfloor>y\<rfloor> \<le> round_half_even y"
      unfolding round_half_even_def Let_def by auto
    ultimately show ?thesis by linarith
  qed
qed

lemma binary_exponent_bounds:
  assumes "0 < a"
  shows "2 powi binary_exponent a \<le> a" and "a < 2 powi (binary_exponent a + 1)"
proof -
  obtain p q where pq: "quotient_of a = (p, q)"
    by (cases "quotient_of a")
  then have q: "0 < q"
    by (rule quotient_of_denom_pos)
  have a: "a = of_int p / of_int q"
    using pq by (rule quotient_of_div)
  with assms q have p: "0 < p"
    by (simp add: zero_less_divide_iff)
  define bp where "bp = bitlen p"
  define bq where "bq = bitlen q"
  have bp1: "1 \<le> bp" and bq1: "1 \<le> bq"
    using p q bitlen_eq_zero_iff[of p] bitlen_eq_zero_iff[of q] bitlen_nonneg[of p] bitlen_nonneg[of q]
    unfolding bp_def bq_def by linarith+
  from bitlen_bounds[OF p] have "(2::int) ^ nat (bp - 1) \<le> p" "p < 2 ^ nat bp"
    unfolding bp_def by simp_all
  then have "(of_int ((2::int) ^ nat (bp - 1)) :: rat) \<le> of_int p" "(of_int p :: rat) < of_int (2 ^ nat bp)"
    by (simp_all only: of_int_le_iff of_int_less_iff)
  then have P: "(2::rat) powi (bp - 1) \<le> of_int p" "(of_int p :: rat) < 2 powi bp"
    using bp1 by (simp_all add: power_int_def)
  from bitlen_bounds[OF q] have "(2::int) ^ nat (bq - 1) \<le> q" "q < 2 ^ nat bq"
    unfolding bq_def by simp_all
  then have "(of_int ((2::int) ^ nat (bq - 1)) :: rat) \<le> of_int q" "(of_int q :: rat) < of_int (2 ^ nat bq)"
    by (simp_all only: of_int_le_iff of_int_less_iff)
  then have Q: "(2::rat) powi (bq - 1) \<le> of_int q" "(of_int q :: rat) < 2 powi bq"
    using bq1 by (simp_all add: power_int_def)
  have q': "(0::rat) < of_int q"
    using q by simp
  define k where "k = bp - bq"
  have lo: "(2::rat) powi (k - 1) < a"
  proof -
    have "(2::rat) powi (k - 1) * of_int q < 2 powi (k - 1) * 2 powi bq"
      using Q(2) by (simp add: mult_strict_left_mono)
    also have "\<dots> = 2 powi (bp - 1)"
      by (simp add: k_def power_int_add[symmetric])
    also have "\<dots> \<le> of_int p"
      by (rule P(1))
    finally show ?thesis
      unfolding a using q' by (simp add: pos_less_divide_eq)
  qed
  have hi: "a < (2::rat) powi (k + 1)"
  proof -
    have "of_int p < (2::rat) powi bp"
      by (rule P(2))
    also have "\<dots> = 2 powi (k + 1) * 2 powi (bq - 1)"
      by (simp add: k_def power_int_add[symmetric])
    also have "\<dots> \<le> 2 powi (k + 1) * of_int q"
      using Q(1) by (simp add: mult_left_mono)
    finally show ?thesis
      unfolding a using q' by (simp add: pos_divide_less_eq)
  qed
  have be: "binary_exponent a = (if 2 powi k \<le> a then k else k - 1)"
    by (simp add: binary_exponent_def pq Let_def scale2_one k_def bp_def bq_def)
  show "2 powi binary_exponent a \<le> a"
    using lo by (simp add: be)
  show "a < 2 powi (binary_exponent a + 1)"
    using hi by (simp add: be)
qed

lemma binary_exponent_mono:
  assumes "0 < x" "x \<le> y"
  shows "binary_exponent x \<le> binary_exponent y"
proof (rule ccontr)
  assume "\<not> binary_exponent x \<le> binary_exponent y"
  then have "binary_exponent y + 1 \<le> binary_exponent x"
    by simp
  then have "(2::rat) powi (binary_exponent y + 1) \<le> 2 powi binary_exponent x"
    by (rule power_int_increasing) simp
  moreover have "y < 2 powi (binary_exponent y + 1)"
    using assms by (intro binary_exponent_bounds(2)) simp
  moreover have "2 powi binary_exponent x \<le> x"
    using assms(1) by (rule binary_exponent_bounds(1))
  ultimately show False
    using assms(2) by linarith
qed

lemma to_double_pos:
  "0 < x \<Longrightarrow> to_double x = of_int (round_half_even (x / 2 powi double_exponent x)) * 2 powi double_exponent x"
  by (simp add: to_double_def Let_def scale2_eq)

lemma to_double_zero: "to_double 0 = 0"
  by (simp add: to_double_def)

lemma to_double_minus: "to_double (- x) = - to_double x"
proof -
  consider "x = 0" | "0 < x" | "x < 0" by linarith
  then show ?thesis
  proof cases
    case 1
    then show ?thesis by (simp add: to_double_zero)
  next
    case 2
    then show ?thesis
      by (simp add: to_double_def Let_def scale2_eq double_exponent_def)
  next
    case 3
    then show ?thesis
      by (simp add: to_double_def Let_def scale2_eq double_exponent_def)
  qed
qed

lemma to_double_nonneg: "0 \<le> x \<Longrightarrow> 0 \<le> to_double x"
proof (cases "x = 0")
  case True
  then show ?thesis by (simp add: to_double_zero)
next
  case False
  assume "0 \<le> x"
  with False have x: "0 < x" by simp
  have "(0::rat) \<le> x / 2 powi double_exponent x"
    using x by simp
  then have "of_int 0 \<le> x / 2 powi double_exponent x"
    by simp
  then have "0 \<le> round_half_even (x / 2 powi double_exponent x)"
    by (rule round_half_even_ge)
  then show ?thesis
    unfolding to_double_pos[OF x] by simp
qed

lemma to_double_mono_pos:
  assumes x: "0 < x" and xy: "x \<le> y"
  shows "to_double x \<le> to_double y"
proof -
  have y: "0 < y"
    using x xy by linarith
  let ?ex = "double_exponent x" and ?ey = "double_exponent y"
  have B: "binary_exponent x \<le> binary_exponent y"
    using x xy by (rule binary_exponent_mono)
  have ax: "\<bar>x\<bar> = x" and ay: "\<bar>y\<bar> = y"
    using x y by simp_all
  have exy: "?ex \<le> ?ey"
    using B by (simp add: double_exponent_def ax ay)
  show ?thesis
  proof (cases "?ex = ?ey")
    case True
    have "x / 2 powi ?ey \<le> y / 2 powi ?ey"
      using xy by (simp add: divide_right_mono)
    then have "round_half_even (x / 2 powi ?ey) \<le> round_half_even (y / 2 powi ?ey)"
      by (rule round_half_even_mono)
    then have "(of_int (round_half_even (x / 2 powi ?ey)) :: rat) \<le> of_int (round_half_even (y / 2 powi ?ey))"
      by simp
    then have "of_int (round_half_even (x / 2 powi ?ey)) * (2::rat) powi ?ey
                 \<le> of_int (round_half_even (y / 2 powi ?ey)) * 2 powi ?ey"
      by (rule mult_right_mono) simp
    then show ?thesis
      unfolding to_double_pos[OF x] to_double_pos[OF y] True .
  next
    case False
    with exy have lt: "?ex < ?ey" by simp
    let ?By = "binary_exponent y"
    have ey: "?ey = ?By - 52"
      using lt by (simp add: double_exponent_def ax ay max_def split: if_splits)
    have "binary_exponent x - 52 \<le> ?ex"
      by (simp add: double_exponent_def ax)
    with lt ey have Bx: "binary_exponent x + 1 \<le> ?By"
      by simp
    have d: "0 \<le> ?By - ?ex"
      using lt ey by simp
    have "x < 2 powi (binary_exponent x + 1)"
      using x by (rule binary_exponent_bounds(2))
    also have "\<dots> \<le> 2 powi ?By"
      using Bx by (rule power_int_increasing) simp
    finally have xB: "x \<le> 2 powi ?By" by simp
    have split: "(2::rat) powi ?By = 2 powi (?By - ?ex) * 2 powi ?ex"
      by (simp add: power_int_add[symmetric])
    have int: "(2::rat) powi (?By - ?ex) = of_int (2 ^ nat (?By - ?ex))"
      using d by (simp add: power_int_nonneg_exp)
    have "x / 2 powi ?ex \<le> 2 powi (?By - ?ex)"
      using xB unfolding split by (simp add: pos_divide_le_eq)
    then have "x / 2 powi ?ex \<le> of_int (2 ^ nat (?By - ?ex))"
      unfolding int .
    then have "round_half_even (x / 2 powi ?ex) \<le> 2 ^ nat (?By - ?ex)"
      by (rule round_half_even_le)
    then have "(of_int (round_half_even (x / 2 powi ?ex)) :: rat) \<le> of_int (2 ^ nat (?By - ?ex))"
      by (simp only: of_int_le_iff)
    then have "of_int (round_half_even (x / 2 powi ?ex)) * (2::rat) powi ?ex
                 \<le> of_int (2 ^ nat (?By - ?ex)) * 2 powi ?ex"
      by (rule mult_right_mono) simp
    then have low: "to_double x \<le> 2 powi ?By"
      unfolding to_double_pos[OF x] split int .
    have "(2::rat) powi (?By - 52 + 52) = 2 powi (?By - 52) * 2 powi 52"
      by (rule power_int_add) simp
    then have split2: "(2::rat) powi ?By = 2 powi 52 * 2 powi ?ey"
      unfolding ey by simp
    have "2 powi ?By \<le> y"
      using y by (rule binary_exponent_bounds(1))
    then have "(2::rat) powi 52 \<le> y / 2 powi ?ey"
      unfolding split2 by (simp add: pos_le_divide_eq)
    then have "of_int (2 ^ 52) \<le> y / 2 powi ?ey"
      by simp
    then have "2 ^ 52 \<le> round_half_even (y / 2 powi ?ey)"
      by (rule round_half_even_ge)
    then have "(of_int (2 ^ 52) :: rat) \<le> of_int (round_half_even (y / 2 powi ?ey))"
      by (simp only: of_int_le_iff)
    then have A: "of_int (2 ^ 52) * (2::rat) powi ?ey \<le> of_int (round_half_even (y / 2 powi ?ey)) * 2 powi ?ey"
      by (rule mult_right_mono) simp
    have "(2::rat) powi ?By = of_int (2 ^ 52) * 2 powi ?ey"
      unfolding split2 by simp
    also note A
    also have "of_int (round_half_even (y / 2 powi ?ey)) * 2 powi ?ey = to_double y"
      by (rule to_double_pos[OF y, symmetric])
    finally have "2 powi ?By \<le> to_double y" .
    with low show ?thesis by linarith
  qed
qed

lemma to_double_mono: "x \<le> y \<Longrightarrow> to_double x \<le> to_double y"
proof -
  assume xy: "x \<le> y"
  consider "0 < x" | "x \<le> 0" "0 \<le> y" | "y < 0" by linarith
  then show ?thesis
  proof cases
    case 1
    then show ?thesis using xy by (rule to_double_mono_pos)
  next
    case 2
    have "0 \<le> to_double (- x)"
      using 2(1) by (intro to_double_nonneg) simp
    then have "to_double x \<le> 0"
      by (simp add: to_double_minus)
    also have "0 \<le> to_double y"
      using 2(2) by (rule to_double_nonneg)
    finally show ?thesis .
  next
    case 3
    then have "0 < - y" "- y \<le> - x"
      using xy by simp_all
    then have "to_double (- y) \<le> to_double (- x)"
      by (rule to_double_mono_pos)
    then show ?thesis
      by (simp add: to_double_minus)
  qed
qed




subsection \<open>The remaining-quantity check of shipLineItem\<close>

lemma digit_char_props:
  assumes "d < 10"
  shows "is_digit (digit_char d)" "digit_val (digit_char d) = int d"
    "digit_char d \<noteq> CHR ''.''" "digit_char d \<noteq> CHR ''-''" "digit_char d \<noteq> CHR ''+''"
proof -
  have v: "(of_char (digit_char d) :: nat) = 48 + d"
    using assms by (simp add: digit_char_def)
  then have vi: "(of_char (digit_char d) :: int) = 48 + int d"
    by (metis of_char_of of_nat_add of_nat_numeral of_nat_of_char)
  show "is_digit (digit_char d)"
    using assms by (simp add: is_digit_def v)
  show "digit_val (digit_char d) = int d"
    by (simp add: digit_val_def vi)
  have "(of_char (digit_char d) :: nat) \<noteq> of_char (CHR ''.'')"
    "(of_char (digit_char d) :: nat) \<noteq> of_char (CHR ''-'')"
    "(of_char (digit_char d) :: nat) \<noteq> of_char (CHR ''+'')"
    unfolding v by simp_all
  then show "digit_char d \<noteq> CHR ''.''" "digit_char d \<noteq> CHR ''-''" "digit_char d \<noteq> CHR ''+''"
    by auto
qed

lemma show_digits_small: "n < 10 \<Longrightarrow> show_digits n = [digit_char (nat n)]"
  by (subst show_digits.simps) simp

lemma show_digits_step:
  "10 \<le> n \<Longrightarrow> show_digits n = show_digits (n div 10) @ [digit_char (nat (n mod 10))]"
  by (subst show_digits.simps) simp

lemma mod10_digit: "nat (n mod 10) < 10" for n :: int
  by simp

lemma show_digits_digits: "0 \<le> n \<Longrightarrow> list_all is_digit (show_digits n)"
proof (induction n rule: show_digits.induct)
  case (1 n)
  show ?case
  proof (cases "n < 10")
    case True
    with "1.prems" have "nat n < 10" by simp
    with True show ?thesis
      by (simp add: show_digits_small digit_char_props)
  next
    case False
    then have "list_all is_digit (show_digits (n div 10))"
      using "1.IH" by simp
    with False show ?thesis
      by (simp add: show_digits_step digit_char_props)
  qed
qed

lemma show_digits_nonempty: "show_digits n \<noteq> []"
  by (subst show_digits.simps) simp

lemma digits_val_snoc: "digits_val (s @ [c]) = 10 * digits_val s + digit_val c"
  by (simp add: digits_val_def)

lemma digits_val_show_digits: "0 \<le> n \<Longrightarrow> digits_val (show_digits n) = n"
proof (induction n rule: show_digits.induct)
  case (1 n)
  show ?case
  proof (cases "n < 10")
    case True
    with "1.prems" have "nat n < 10" by simp
    with True "1.prems" show ?thesis
      by (simp add: show_digits_small digits_val_def digit_char_props)
  next
    case False
    then have "digits_val (show_digits (n div 10)) = n div 10"
      using "1.IH" by simp
    with False show ?thesis
      by (simp add: show_digits_step digits_val_snoc digit_char_props)
  qed
qed

lemma unsigned_decimal_point:
  assumes "list_all is_digit ip" "ip \<noteq> []" "list_all is_digit fp"
  shows "unsigned_decimal (ip @ CHR ''.'' # fp) =
           Some (of_int (digits_val ip) + of_int (digits_val fp) / 10 ^ length fp)"
proof -
  have nd: "\<not> is_digit CHR ''.''"
    by (simp add: is_digit_def)
  have tw: "takeWhile is_digit (ip @ CHR ''.'' # fp) = ip"
    using assms(1) nd by (simp add: takeWhile_append2 list_all_iff)
  have dw: "dropWhile is_digit (ip @ CHR ''.'' # fp) = CHR ''.'' # fp"
    using assms(1) nd by (simp add: dropWhile_append2 list_all_iff)
  show ?thesis
    unfolding unsigned_decimal_def tw dw Let_def using assms by simp
qed

lemma two_digits:
  fixes n :: int
  shows "(of_int (n div 100) :: rat) + of_int (10 * (n div 10 mod 10) + n mod 10) / 100 = of_int n / 100"
proof -
  have "n mod (10 * 10) = 10 * (n div 10 mod 10) + n mod 10"
    by (rule zmod_zmult2_eq) simp
  then have m: "10 * (n div 10 mod 10) + n mod 10 = n mod 100"
    by simp
  have "(of_int n :: rat) = of_int (100 * (n div 100) + n mod 100)"
    by simp
  also have "\<dots> = 100 * of_int (n div 100) + of_int (n mod 100)"
    by (simp only: of_int_add of_int_mult of_int_numeral)
  finally have "(of_int n :: rat) / 100 = of_int (n div 100) + of_int (n mod 100) / 100"
    by (simp add: add_divide_distrib)
  then show ?thesis
    unfolding m by simp
qed

lemma unsigned_decimal_numeric_out:
  assumes "0 \<le> n"
  shows "unsigned_decimal
           (show_digits (n div 100) @
            [CHR ''.'', digit_char (nat (n div 10 mod 10)), digit_char (nat (n mod 10))])
         = Some (of_int n / 100)"
proof -
  let ?fp = "[digit_char (nat (n div 10 mod 10)), digit_char (nat (n mod 10))]"
  have fp: "list_all is_digit ?fp"
    by (simp add: digit_char_props)
  have dv: "digits_val ?fp = 10 * (n div 10 mod 10) + n mod 10"
    by (simp add: digits_val_def digit_char_props)
  have q: "0 \<le> n div 100"
    using assms by simp
  have "unsigned_decimal (show_digits (n div 100) @ CHR ''.'' # ?fp) =
          Some (of_int (digits_val (show_digits (n div 100))) + of_int (digits_val ?fp) / 10 ^ length ?fp)"
    using show_digits_digits[OF q] show_digits_nonempty fp by (rule unsigned_decimal_point)
  then show ?thesis
    by (simp add: digits_val_show_digits[OF q] dv two_digits del: of_int_add of_int_mult)
qed

lemma show_digits_hd: "0 \<le> n \<Longrightarrow> \<exists>d t. d < 10 \<and> show_digits n = digit_char d # t"
proof (induction n rule: show_digits.induct)
  case (1 n)
  show ?case
  proof (cases "n < 10")
    case True
    with "1.prems" have "nat n < 10" by simp
    with True show ?thesis
      by (auto simp: show_digits_small)
  next
    case False
    then have "0 \<le> n div 10" by simp
    with False obtain d t where "d < 10" "show_digits (n div 10) = digit_char d # t"
      using "1.IH" by blast
    with False show ?thesis
      by (auto simp: show_digits_step)
  qed
qed

lemma numeric_out_nonneg:
  "0 \<le> c \<Longrightarrow> numeric_out c =
     show_digits (c div 100) @
       [CHR ''.'', digit_char (nat (c div 10 mod 10)), digit_char (nat (c mod 10))]"
  by (simp add: numeric_out_def Let_def)

lemma numeric_out_neg:
  "c < 0 \<Longrightarrow> numeric_out c =
     CHR ''-'' # show_digits (- c div 100) @
       [CHR ''.'', digit_char (nat (- c div 10 mod 10)), digit_char (nat (- c mod 10))]"
  by (simp add: numeric_out_def Let_def)

lemma signed_decimal_numeric_out: "signed_decimal (numeric_out c) = Some (of_int c / 100)"
proof (cases "c < 0")
  case True
  then have p: "0 \<le> - c" by simp
  have "signed_decimal (numeric_out c) = map_option uminus (Some (of_int (- c) / 100))"
    unfolding numeric_out_neg[OF True] signed_decimal_def
    by (simp add: unsigned_decimal_numeric_out[OF p])
  also have "\<dots> = Some (of_int c / 100)"
    by simp
  finally show ?thesis .
next
  case False
  then have nn: "0 \<le> c" by simp
  then have q: "0 \<le> c div 100" by simp
  obtain d t where d: "d < 10" "show_digits (c div 100) = digit_char d # t"
    using show_digits_hd[OF q] by blast
  have "signed_decimal (numeric_out c) = unsigned_decimal (numeric_out c)"
    unfolding numeric_out_nonneg[OF nn] signed_decimal_def d(2)
    using digit_char_props(4,5)[OF d(1)] by simp
  also have "\<dots> = Some (of_int c / 100)"
    unfolding numeric_out_nonneg[OF nn] by (rule unsigned_decimal_numeric_out[OF nn])
  finally show ?thesis .
qed

lemma numeric_out_nonempty: "numeric_out c \<noteq> []"
  by (simp add: numeric_out_def Let_def)

lemma js_to_number_row_numeric: "js_to_number (row_numeric c) = Some (to_double (of_int c / 100))"
  by (simp add: js_to_number_def row_numeric_def numeric_out_nonempty signed_decimal_numeric_out)

lemma remaining_quantity:
  "js_sub (row_numeric q) (row_numeric s) =
     JNum (to_double (to_double (of_int q / 100) - to_double (of_int s / 100)))"
  by (simp add: js_sub_def js_to_number_row_numeric)

lemma js_gt_num: "js_gt (JNum a) (JNum b) = (b < a)"
  by (simp add: js_gt_def js_to_number_def)











subsection \<open>createOrder as one unit\<close>

lemma line_item_raises_None:
  "line_item_raises (parts db) item \<Longrightarrow> insert_line_item t db oid item = None"
  by (auto simp: line_item_raises_def insert_line_item_def split: option.splits)

lemma insert_line_items_raises:
  "list_ex (line_item_raises (parts db)) items \<Longrightarrow> insert_line_items t db oid items = None"
proof (induction items arbitrary: db)
  case Nil
  then show ?case by simp
next
  case (Cons item items)
  show ?case
  proof (cases "insert_line_item t db oid item")
    case None
    then show ?thesis by simp
  next
    case (Some p)
    obtain db1 row where p: "p = (db1, row)" by (cases p)
    have "\<not> line_item_raises (parts db) item"
      using Some line_item_raises_None by fastforce
    with Cons.prems have "list_ex (line_item_raises (parts db)) items"
      by simp
    moreover have "parts db1 = parts db"
      using Some p by (simp add: insert_line_item_Some)
    ultimately have "insert_line_items t db1 oid items = None"
      using Cons.IH[of db1] by simp
    with Some p show ?thesis by simp
  qed
qed

text \<open>
  C6. createOrder on a valid request whose customer already has an order with the same PO
  number (compared exactly, after the \<^verbatim>\<open>trim\<close> sanitizer) answers
  \<^verbatim>\<open>400 'PO number already exists for this customer'\<close> and leaves the database as it
  was. A request with a line item that fails validation is answered with the validation
  errors, and a request with a line item whose insert raises is answered with an error;
  and whenever createOrder answers with an error, the database is the one it started
  from: no order row, no line-item row, nothing else.
\<close>

theorem createOrder_atomic:
  "(valid_create_order req \<and>
      (\<exists>ord \<in> set (orders db). o_customer_id ord = co_customerId req \<and>
                                 o_po_number ord = trim (co_poNumber req))
      \<longrightarrow> createOrder e db req = (Inl Conflict, db))
   \<and> (\<not> list_all valid_line_item (co_lineItems req)
      \<longrightarrow> createOrder e db req = (Inl ValidationError, db))
   \<and> (list_ex (line_item_raises (parts db)) (map sanitize_item (co_lineItems req))
      \<longrightarrow> (\<exists>err. createOrder e db req = (Inl err, db)))
   \<and> (\<forall>err. fst (createOrder e db req) = Inl err \<longrightarrow> snd (createOrder e db req) = db)"
proof (intro conjI impI allI)
  assume "valid_create_order req \<and>
      (\<exists>ord \<in> set (orders db). o_customer_id ord = co_customerId req \<and>
                                 o_po_number ord = trim (co_poNumber req))"
  then show "createOrder e db req = (Inl Conflict, db)"
    by (simp add: createOrder_def)
next
  assume "\<not> list_all valid_line_item (co_lineItems req)"
  then show "createOrder e db req = (Inl ValidationError, db)"
    by (simp add: createOrder_def valid_create_order_def)
next
  assume r: "list_ex (line_item_raises (parts db)) (map sanitize_item (co_lineItems req))"
  show "\<exists>err. createOrder e db req = (Inl err, db)"
  proof (cases rule: createOrder_cases[of e db req])
    case (fail err)
    then show ?thesis by blast
  next
    case (ok db1 order db2 created)
    have "parts db1 = parts db"
      using ok(2) by (simp add: insert_order_Some)
    with r have "insert_line_items (now e) db1 (o_id order) (map sanitize_item (co_lineItems req)) = None"
      using insert_line_items_raises[of db1] by simp
    with ok(3) show ?thesis by simp
  qed
next
  fix err assume f: "fst (createOrder e db req) = Inl err"
  show "snd (createOrder e db req) = db"
  proof (cases rule: createOrder_cases[of e db req])
    case (fail err')
    then show ?thesis by simp
  next
    case (ok db1 order db2 created)
    with f show ?thesis by simp
  qed
qed

theorem createOrder_atomic_witness:
  "(valid_create_order demo_create \<and>
      (\<exists>ord \<in> set (orders demo_created). o_customer_id ord = co_customerId demo_create \<and>
                                 o_po_number ord = trim (co_poNumber demo_create)))
   \<and> createOrder demo_env demo_created demo_create = (Inl Conflict, demo_created)
   \<and> list_ex (line_item_raises (parts demo_created)) (map sanitize_item (co_lineItems demo_two_items))
   \<and> fst (createOrder demo_env demo_created demo_two_items) = Inl InternalError
   \<and> snd (createOrder demo_env demo_created demo_two_items) = demo_created"
proof -
  have h1: "valid_create_order demo_create \<and>
      (\<exists>ord \<in> set (orders demo_created). o_customer_id ord = co_customerId demo_create \<and>
                                 o_po_number ord = trim (co_poNumber demo_create))"
    by code_simp
  have h3: "list_ex (line_item_raises (parts demo_created)) (map sanitize_item (co_lineItems demo_two_items))"
    by code_simp
  have h4: "fst (createOrder demo_env demo_created demo_two_items) = Inl InternalError"
    by code_simp
  have c1: "createOrder demo_env demo_created demo_create = (Inl Conflict, demo_created)"
    by (rule mp[OF conjunct1[OF createOrder_atomic] h1])
  have c4: "snd (createOrder demo_env demo_created demo_two_items) = demo_created"
    by (rule mp[OF spec[OF conjunct2[OF conjunct2[OF conjunct2[OF createOrder_atomic]]]] h4])
  show ?thesis
    by (rule conjI[OF h1 conjI[OF c1 conjI[OF h3 conjI[OF h4 c4]]]])
qed

subsection \<open>The audit entry\<close>

lemma logAction_sink:
  "logAction (e\<lparr>audit_sink_ok := False\<rparr>) db u a tn r ov nv = db"
  "logAction (e\<lparr>audit_sink_ok := True\<rparr>) db u a tn r ov nv =
     db\<lparr>audit_log := audit_log db @
        [\<lparr>a_user_id = u, a_action = a, a_table_name = tn, a_record_id = r,
          a_old_values = ov, a_new_values = nv\<rparr>]\<rparr>"
  by (simp_all add: logAction_def)

lemma createOrder_audit:
  "(case createOrder (e\<lparr>audit_sink_ok := False\<rparr>) db req of
      (Inl err, d) \<Rightarrow> d = db \<and> createOrder (e\<lparr>audit_sink_ok := True\<rparr>) db req = (Inl err, db)
    | (Inr (order, rows), d) \<Rightarrow>
        audit_log d = audit_log db \<and>
        createOrder (e\<lparr>audit_sink_ok := True\<rparr>) db req =
          (Inr (order, rows), d\<lparr>audit_log := audit_log db @ [create_order_entry req order]\<rparr>))"
proof (cases rule: createOrder_cases[of "e\<lparr>audit_sink_ok := False\<rparr>" db req])
  case (fail err)
  then have "createOrder (e\<lparr>audit_sink_ok := True\<rparr>) db req = (Inl err, db)"
    by (auto simp: createOrder_def Let_def
             split: if_splits option.splits)
  with fail show ?thesis by simp
next
  case (ok db1 order db2 created)
  have a: "audit_log db2 = audit_log db"
    using insert_order_Some[OF ok(2)] insert_line_items_Some[OF ok(3)] by simp
  have "createOrder (e\<lparr>audit_sink_ok := True\<rparr>) db req =
          (Inr (order, created),
           logAction (e\<lparr>audit_sink_ok := True\<rparr>) db2 (co_user req) ''CREATE_ORDER'' ''orders'' (o_id order)
             None (Some (OrderSnap order)))"
    using ok
    by (auto simp: createOrder_def Let_def
             split: if_splits option.splits)
  with ok(4) a show ?thesis
    by (simp add: logAction_sink create_order_entry_def)
qed

lemma update_shipped_tables:
  assumes "update_shipped t db itemId new full d = Some (db2, rows)"
  shows "audit_log db2 = audit_log db" "shipments db2 = shipments db"
    "customers db2 = customers db" "parts db2 = parts db"
  using assms
  by (auto simp: update_shipped_def Let_def split: option.splits if_splits)

lemma shipLineItem_audit:
  "(case shipLineItem (e\<lparr>audit_sink_ok := False\<rparr>) db orderId itemId req of
      (Inl err, d) \<Rightarrow>
        d = db \<and> shipLineItem (e\<lparr>audit_sink_ok := True\<rparr>) db orderId itemId req = (Inl err, db)
    | (Inr body, d) \<Rightarrow>
        audit_log d = audit_log db \<and>
        shipLineItem (e\<lparr>audit_sink_ok := True\<rparr>) db orderId itemId req =
          (Inr body, d\<lparr>audit_log := audit_log db @ [ship_entry db orderId itemId req body]\<rparr>))"
proof (cases rule: shipLineItem_cases[of "e\<lparr>audit_sink_ok := False\<rparr>" db orderId itemId req])
  case (fail err)
  then have "shipLineItem (e\<lparr>audit_sink_ok := True\<rparr>) db orderId itemId req = (Inl err, db)"
    by (auto simp: shipLineItem_def Let_def split: if_splits option.splits)
  with fail show ?thesis by simp
next
  case (ok lineItem db1 db2 rows)
  have a: "audit_log db2 = audit_log db"
    using insert_shipment_Some(3)[OF ok(4)] update_shipped_tables(1)[OF ok(5)] by simp
  let ?body = "\<lparr>sb_lineItem = first_row rows, sb_shippedQuantity = json_number (sh_quantity req),
               sb_remainingQuantity =
                 js_sub (row_numeric (oli_quantity lineItem))
                   (js_add (row_numeric (oli_shipped_quantity lineItem)) (json_number (sh_quantity req)))\<rparr>"
  have "shipLineItem (e\<lparr>audit_sink_ok := True\<rparr>) db orderId itemId req =
          (Inr ?body,
           logAction (e\<lparr>audit_sink_ok := True\<rparr>) db2 (sh_user req) ''SHIP_ITEM'' ''order_line_items'' itemId
             (Some (LineItemSnap lineItem)) (map_option LineItemSnap (first_row rows)))"
    using ok(1-5) by (simp add: shipLineItem_def Let_def)
  with ok(2,6) a show ?thesis
    by (simp add: logAction_sink ship_entry_def)
qed

text \<open>
  C8, as amended. The audit entry of createOrder and of shipLineItem is written by
  \<^verbatim>\<open>logAction\<close> after \<^verbatim>\<open>COMMIT\<close>, outside the transaction, and a failure of the audit
  sink is swallowed (fail-open): with the sink out of reach the request gets the same
  response and leaves the same rows, only the audit entry is missing; with the sink in
  reach a successful request appends exactly one audit entry. A request that fails writes
  no audit entry and changes nothing.
\<close>

theorem audit_after_commit:
  "(case createOrder (e\<lparr>audit_sink_ok := False\<rparr>) db cr of
      (Inl err, d) \<Rightarrow> d = db \<and> createOrder (e\<lparr>audit_sink_ok := True\<rparr>) db cr = (Inl err, db)
    | (Inr (order, rows), d) \<Rightarrow>
        audit_log d = audit_log db \<and>
        createOrder (e\<lparr>audit_sink_ok := True\<rparr>) db cr =
          (Inr (order, rows), d\<lparr>audit_log := audit_log db @ [create_order_entry cr order]\<rparr>))
   \<and> (case shipLineItem (e\<lparr>audit_sink_ok := False\<rparr>) db orderId itemId sr of
      (Inl err, d) \<Rightarrow>
        d = db \<and> shipLineItem (e\<lparr>audit_sink_ok := True\<rparr>) db orderId itemId sr = (Inl err, db)
    | (Inr body, d) \<Rightarrow>
        audit_log d = audit_log db \<and>
        shipLineItem (e\<lparr>audit_sink_ok := True\<rparr>) db orderId itemId sr =
          (Inr body, d\<lparr>audit_log := audit_log db @ [ship_entry db orderId itemId sr body]\<rparr>))"
  by (intro conjI createOrder_audit shipLineItem_audit)

text \<open>
  The claim as stated fails: with the audit sink out of reach, createOrder on the demo
  database commits the order and its line item, and the audit log stays empty.
\<close>

theorem audit_sink_down_counterexample:
  "map o_po_number (orders (snd (createOrder demo_env_sink_down demo_db demo_create))) = [''PO-1'']
   \<and> map oli_part_number (order_line_items (snd (createOrder demo_env_sink_down demo_db demo_create)))
       = [''WG-001'']
   \<and> audit_log (snd (createOrder demo_env_sink_down demo_db demo_create)) = []"
  by code_simp

subsection \<open>The ledger arithmetic of shipLineItem\<close>

lemma js_add_numbers: "js_add (JNum a) (JNum b) = JNum (to_double (a + b))"
  by (simp add: js_add_def is_string_def js_to_number_def)

lemma js_add_row_string:
  "js_add (row_numeric c) (JNum q) = JStr (numeric_out c @ js_number_to_string q)"
  by (simp add: js_add_def is_string_def row_numeric_def js_to_string_def)

text \<open>
  C1, evaluated at a failing input. On the demo order (one line item, 100.00 pieces,
  nothing shipped) a shipment of 40 succeeds. \<^verbatim>\<open>lineItem.shipped_quantity + quantity\<close>
  is \<^verbatim>\<open>"0.00" + 40\<close>, the string \<^verbatim>\<open>"0.0040"\<close>, which the database rounds to 0.00. So
  the shipment row holds 40.00 while \<^verbatim>\<open>shipped_quantity\<close> stays 0.00: the shipments of
  the line item do not add up to its \<^verbatim>\<open>shipped_quantity\<close>.
\<close>

theorem shipment_ledger_diverges:
  "map (\<lambda>s. (s_line_item_id s, s_quantity s))
     (shipments (snd (shipLineItem demo_env demo_created 10 11 demo_ship_40))) = [(11, 4000)]
   \<and> map (\<lambda>i. (oli_id i, oli_quantity i, oli_shipped_quantity i))
     (order_line_items (snd (shipLineItem demo_env demo_created 10 11 demo_ship_40))) = [(11, 10000, 0)]"
  by code_simp

text \<open>
  C3, evaluated at a failing input: the response of the same call. The line item comes
  back with \<^verbatim>\<open>shipped_quantity\<close> 0.00, not 40.00; \<^verbatim>\<open>shippedQuantity\<close> is 40 and
  \<^verbatim>\<open>remainingQuantity\<close> is \<^verbatim>\<open>"100.00" - "0.0040"\<close>, that is the double 99.996: neither 60
  nor 100 minus the stored 0.00.
\<close>

theorem shipLineItem_increment_lost:
  "map_sum id (\<lambda>b. (map_option oli_shipped_quantity (sb_lineItem b),
                     sb_shippedQuantity b, sb_remainingQuantity b))
     (fst (shipLineItem demo_env demo_created 10 11 demo_ship_40))
   = Inr (Some 0, JNum 40, JNum (to_double (99996 / 1000)))"
  by code_simp

subsection \<open>date_shipped\<close>

text \<open>
  Only shipLineItem writes \<^verbatim>\<open>date_shipped\<close>: the other handlers leave the line items
  that exist as they are, up to \<^verbatim>\<open>in_production\<close> and \<^verbatim>\<open>updated_at\<close>.
\<close>

lemma setInProduction_date_shipped:
  "map oli_date_shipped (order_line_items (snd (setInProduction e db u orderId itemId))) =
     map oli_date_shipped (order_line_items db)"
  by (simp add: setInProduction_items comp_def)

lemma updateOrder_items:
  "order_line_items (snd (updateOrder e db ident req)) = order_line_items db"
  by (simp add: updateOrder_def Let_def split: option.splits)

lemma cancelOrder_items:
  "order_line_items (snd (cancelOrder e db u ident)) = order_line_items db"
  by (simp add: cancelOrder_def Let_def split: option.splits)

lemma createOrder_items:
  "take (length (order_line_items db)) (order_line_items (snd (createOrder e db cr))) =
     order_line_items db"
proof (cases rule: createOrder_cases[of e db cr])
  case (fail err)
  then show ?thesis by simp
next
  case (ok db1 order db2 created)
  have "order_line_items db2 = order_line_items db @ created"
    using insert_order_Some(3)[OF ok(2)] insert_line_items_Some[OF ok(3)] by simp
  with ok(4) show ?thesis by simp
qed

lemma five_text: "js_to_string (json_number 5) = ''5''"
  by code_simp

lemma five_decimal: "to_decimal_10_2 (json_number 5) = Some 500"
  by code_simp

lemma ten_text: "numeric_out 1000 = ''10.00''"
  by code_simp

lemma is_digit_5: "is_digit CHR ''5''" "digit_val CHR ''5'' = 5"
  by (simp_all add: is_digit_def digit_val_def)

lemma five_fits:
  assumes "0 \<le> k" "k \<le> 500"
  shows "\<not> js_gt (json_number 5) (js_sub (row_numeric 1000) (row_numeric k))"
proof -
  have t5: "to_double 5 = 5"
    by code_simp
  have t10: "to_double (of_int 1000 / 100) = 10"
    by code_simp
  have "(of_int k :: rat) / 100 \<le> 5"
    using assms(2) by simp
  then have "to_double (of_int k / 100) \<le> to_double 5"
    by (rule to_double_mono)
  then have "5 \<le> 10 - to_double (of_int k / 100)"
    unfolding t5 by simp
  then have "to_double 5 \<le> to_double (10 - to_double (of_int k / 100))"
    by (rule to_double_mono)
  then show ?thesis
    unfolding remaining_quantity t10 json_number_def js_gt_num t5 by simp
qed

lemma append5_value:
  assumes "0 \<le> k"
  shows "signed_decimal (numeric_out k @ ''5'') = Some ((of_int k * 10 + 5) / 1000)"
proof -
  let ?fp = "[digit_char (nat (k div 10 mod 10)), digit_char (nat (k mod 10)), CHR ''5'']"
  have q: "0 \<le> k div 100"
    using assms by simp
  obtain d t where d: "d < 10" "show_digits (k div 100) = digit_char d # t"
    using show_digits_hd[OF q] by blast
  have s: "numeric_out k @ ''5'' = show_digits (k div 100) @ CHR ''.'' # ?fp"
    by (simp add: numeric_out_nonneg[OF assms])
  have fp: "list_all is_digit ?fp"
    by (simp add: digit_char_props is_digit_5)
  have "k mod (10 * 10) = 10 * (k div 10 mod 10) + k mod 10"
    by (rule zmod_zmult2_eq) simp
  then have m: "10 * (k div 10 mod 10) + k mod 10 = k mod 100"
    by simp
  have "digits_val ?fp = 10 * (10 * (k div 10 mod 10) + k mod 10) + 5"
    by (simp add: digits_val_def digit_char_props is_digit_5)
  then have dv: "digits_val ?fp = 10 * (k mod 100) + 5"
    unfolding m .
  have "signed_decimal (numeric_out k @ ''5'') = unsigned_decimal (numeric_out k @ ''5'')"
    unfolding s signed_decimal_def d(2)
    using digit_char_props(4,5)[OF d(1)] by simp
  also have "\<dots> = Some (of_int (digits_val (show_digits (k div 100))) + of_int (digits_val ?fp) / 10 ^ length ?fp)"
    unfolding s using show_digits_digits[OF q] show_digits_nonempty fp
    by (rule unsigned_decimal_point)
  also have "\<dots> = Some (of_int (k div 100) + of_int (10 * (k mod 100) + 5) / 1000)"
    unfolding digits_val_show_digits[OF q] dv by simp
  also have "of_int (k div 100) + of_int (10 * (k mod 100) + 5) / 1000
           = ((of_int k :: rat) * 10 + 5) / 1000"
  proof -
    have "(of_int k :: rat) = of_int (100 * (k div 100) + k mod 100)"
      by simp
    also have "\<dots> = 100 * of_int (k div 100) + of_int (k mod 100)"
      by (simp only: of_int_add of_int_mult of_int_numeral)
    finally show ?thesis
      by (simp add: field_simps)
  qed
  finally show ?thesis .
qed

lemma append5_rounds:
  assumes "0 \<le> k" "k < 1000"
  shows "to_decimal_10_2 (JStr (numeric_out k @ ''5'')) = Some (k + 1)"
proof -
  have pos: "(0 :: rat) \<le> (of_int k * 10 + 5) / 1000"
    using assms(1) by simp
  have "(of_int k * 10 + 5) / 1000 * 100 + 1 / 2 = (of_int (k + 1) :: rat)"
    by (simp add: field_simps)
  then have "\<lfloor>(of_int k * 10 + 5) / 1000 * 100 + 1 / 2 :: rat\<rfloor> = k + 1"
    by (simp only: floor_of_int)
  with pos have "round_scale2 ((of_int k * 10 + 5) / 1000) = k + 1"
    by (simp only: round_scale2_def if_True)
  with assms show ?thesis
    by (simp add: to_decimal_10_2_def js_to_string_def append5_value Let_def)
qed

lemma append5_compare:
  assumes "0 \<le> k" "k < 1000"
  shows "str_less (numeric_out k @ ''5'') ''10.00'' = (k < 200)"
proof -
  let ?a = "nat (k div 100)"
  have a: "?a < 10" "k div 100 < 10"
    using assms by simp_all
  have s: "numeric_out k @ ''5'' =
      digit_char ?a # CHR ''.'' # [digit_char (nat (k div 10 mod 10)), digit_char (nat (k mod 10)), CHR ''5'']"
    by (simp add: numeric_out_nonneg[OF assms(1)] show_digits_small[OF a(2)])
  have v: "(of_char (digit_char ?a) :: nat) = 48 + ?a"
    using a(1) by (simp add: digit_char_def)
  have one: "(digit_char ?a = CHR ''1'') = (?a = 1)"
  proof
    assume "digit_char ?a = CHR ''1''"
    then have "(of_char (digit_char ?a) :: nat) = of_char CHR ''1''" by simp
    then show "?a = 1" unfolding v by simp
  next
    have "digit_char 1 = CHR ''1''" by code_simp
    moreover assume "?a = 1"
    ultimately show "digit_char ?a = CHR ''1''" by simp
  qed
  have "str_less (numeric_out k @ ''5'') ''10.00'' = (?a < 1 \<or> ?a = 1)"
    unfolding s by (simp add: v one)
  also have "\<dots> = (k < 200)"
    using assms by auto
  finally show ?thesis .
qed


lemma ledger_start: "ledger demo_ten_created = [(11, 10, 1000, 0, None)]"
  by code_simp

lemma shipLineItem_ok:
  assumes "valid_ship req"
    and "find (\<lambda>i. oli_id i = itemId \<and> oli_order_id i = orderId) (order_line_items db) = Some lineItem"
    and "\<not> js_gt (json_number (sh_quantity req))
           (js_sub (row_numeric (oli_quantity lineItem)) (row_numeric (oli_shipped_quantity lineItem)))"
    and "insert_shipment (now e) db itemId (json_number (sh_quantity req))
           (coalesce (sh_shipDate req) (today e))
           (map_option trim (sh_trackingNumber req)) (map_option trim (sh_notes req)) (sh_user req) = Some db1"
    and "update_shipped (now e) db1 itemId
           (js_add (row_numeric (oli_shipped_quantity lineItem)) (json_number (sh_quantity req)))
           (js_ge (js_add (row_numeric (oli_shipped_quantity lineItem)) (json_number (sh_quantity req)))
                  (row_numeric (oli_quantity lineItem)))
           (coalesce (sh_shipDate req) (today e)) = Some (db2, rows)"
  shows "order_line_items (snd (shipLineItem e db orderId itemId req)) = order_line_items db2"
  using assms by (simp add: shipLineItem_def Let_def)

lemma ship_5_on_step:
  assumes l: "ledger db = [(11, 10, 1000, k, dopt)]" and k: "0 \<le> k" "k \<le> 500"
  shows "ledger (ship_5_on d db) = [(11, 10, 1000, k + 1, if 200 \<le> k then Some d else dopt)]"
proof -
  from l obtain row where row: "order_line_items db = [row]"
    and f: "oli_id row = 11" "oli_order_id row = 10" "oli_quantity row = 1000"
      "oli_shipped_quantity row = k" "oli_date_shipped row = dopt"
    by (auto simp: ledger_def)
  let ?e = "demo_env\<lparr>today := d\<rparr>"
  have req: "sh_quantity demo_ship_5 = 5" "sh_shipDate demo_ship_5 = None"
    "sh_trackingNumber demo_ship_5 = None" "sh_notes demo_ship_5 = None"
    by (simp_all add: demo_ship_5_def demo_ship_40_def)
  have k': "k < 1000"
    using k by simp
  have valid: "valid_ship demo_ship_5"
    by code_simp
  have found: "find (\<lambda>i. oli_id i = 11 \<and> oli_order_id i = 10) (order_line_items db) = Some row"
    by (simp add: row f)
  have fits: "\<not> js_gt (json_number (sh_quantity demo_ship_5))
                 (js_sub (row_numeric (oli_quantity row)) (row_numeric (oli_shipped_quantity row)))"
    unfolding req f using k by (rule five_fits)
  let ?db1 = "db\<lparr>shipments := shipments db @
                 [\<lparr>s_id = next_uuid db, s_line_item_id = 11, s_quantity = 500,
                   s_ship_date = d, s_tracking_number = None, s_notes = None,
                   s_created_at = now ?e, s_created_by = sh_user demo_ship_5\<rparr>],
                next_uuid := Suc (next_uuid db)\<rparr>"
  have ins: "insert_shipment (now ?e) db 11 (json_number (sh_quantity demo_ship_5))
               (coalesce (sh_shipDate demo_ship_5) (today ?e))
               (map_option trim (sh_trackingNumber demo_ship_5))
               (map_option trim (sh_notes demo_ship_5)) (sh_user demo_ship_5) = Some ?db1"
    by (simp add: insert_shipment_def req five_decimal row f coalesce_def)
  have new: "js_add (row_numeric (oli_shipped_quantity row)) (json_number (sh_quantity demo_ship_5))
               = JStr (numeric_out k @ ''5'')"
  proof -
    have "js_to_string (JStr (numeric_out k)) = numeric_out k"
      by (simp add: js_to_string_def)
    then show ?thesis
      by (simp add: js_add_def row_numeric_def is_string_def five_text req f)
  qed
  have full: "js_ge (js_add (row_numeric (oli_shipped_quantity row)) (json_number (sh_quantity demo_ship_5)))
                (row_numeric (oli_quantity row)) = (200 \<le> k)"
    unfolding new
    using append5_compare[OF k(1) k'] by (auto simp: js_ge_def row_numeric_def f ten_text)
  let ?row' = "ship_update_row (now ?e) (k + 1) (200 \<le> k) d row"
  let ?db2 = "fire_status_trigger (now ?e) (?db1\<lparr>order_line_items := [?row']\<rparr>) [?row']"
  have upd: "update_shipped (now ?e) ?db1 11
               (js_add (row_numeric (oli_shipped_quantity row)) (json_number (sh_quantity demo_ship_5)))
               (js_ge (js_add (row_numeric (oli_shipped_quantity row)) (json_number (sh_quantity demo_ship_5)))
                  (row_numeric (oli_quantity row)))
               (coalesce (sh_shipDate demo_ship_5) (today ?e))
               = Some (?db2, [?row'])"
    unfolding full unfolding new
    using k by (simp add: update_shipped_def append5_rounds[OF k(1) k'] row f Let_def
                  ship_update_row_def coalesce_def req)
  have "order_line_items (snd (shipLineItem ?e db 10 11 demo_ship_5)) = order_line_items ?db2"
    using valid found fits ins upd by (rule shipLineItem_ok)
  then show ?thesis
    by (simp add: ship_5_on_def ledger_def ship_update_row_def f)
qed

lemma ship_5_on_iterated:
  "n \<le> 200 \<Longrightarrow> ledger ((ship_5_on d ^^ n) demo_ten_created) = [(11, 10, 1000, int n, None)]"
proof (induction n)
  case 0
  show ?case by (simp add: ledger_start)
next
  case (Suc n)
  then have ih: "ledger ((ship_5_on d ^^ n) demo_ten_created) = [(11, 10, 1000, int n, None)]"
    by simp
  from Suc.prems have "0 \<le> int n" "int n \<le> 500" "\<not> 200 \<le> int n"
    by simp_all
  with ship_5_on_step[OF ih, of d] show ?case
    by simp
qed

lemma ship_5_on_overwrites:
  "ledger ((ship_5_on 20 ^^ 200) demo_ten_created) = [(11, 10, 1000, 200, None)]
   \<and> ledger (ship_5_on 21 ((ship_5_on 20 ^^ 200) demo_ten_created)) = [(11, 10, 1000, 201, Some 21)]
   \<and> ledger (ship_5_on 22 (ship_5_on 21 ((ship_5_on 20 ^^ 200) demo_ten_created)))
       = [(11, 10, 1000, 202, Some 22)]"
proof -
  have a: "ledger ((ship_5_on 20 ^^ 200) demo_ten_created) = [(11, 10, 1000, 200, None)]"
    using ship_5_on_iterated[of 200 20] by simp
  have b: "ledger (ship_5_on 21 ((ship_5_on 20 ^^ 200) demo_ten_created))
             = [(11, 10, 1000, 201, Some 21)]"
    using ship_5_on_step[OF a, of 21] by simp
  have c: "ledger (ship_5_on 22 (ship_5_on 21 ((ship_5_on 20 ^^ 200) demo_ten_created)))
             = [(11, 10, 1000, 202, Some 22)]"
    using ship_5_on_step[OF b, of 22] by simp
  from a b c show ?thesis
    by (intro conjI)
qed

lemma full_shipment_no_date:
  "map_sum id (\<lambda>b. map_option oli_date_shipped (sb_lineItem b))
     (fst (shipLineItem demo_env demo_created 10 11 demo_ship_100)) = Inr (Some None)
   \<and> map (\<lambda>s. (s_line_item_id s, s_quantity s))
       (shipments (snd (shipLineItem demo_env demo_created 10 11 demo_ship_100))) = [(11, 10000)]
   \<and> ledger (snd (shipLineItem demo_env demo_created 10 11 demo_ship_100))
       = [(11, 10, 10000, 0, None)]"
  by code_simp

text \<open>
  C7, evaluated at two failing inputs. First, on the demo order (one line item, 100.00
  pieces, nothing shipped) a shipment of all 100 pieces succeeds and leaves
  \<^verbatim>\<open>date_shipped\<close> null: \<^verbatim>\<open>lineItem.shipped_quantity + quantity\<close> is the string
  \<^verbatim>\<open>"0.00100"\<close>, and \<^verbatim>\<open>"0.00100" >= "100.00"\<close> is false as a comparison of strings.
  Second, on the order with one line item of 10.00 pieces, every shipment of 5 pieces
  passes the remaining-quantity check and moves \<^verbatim>\<open>shipped_quantity\<close> by 0.01
  (\<^verbatim>\<open>"0.00" + 5\<close> is \<^verbatim>\<open>"0.005"\<close>, rounded to 0.01). After 200 of them
  \<^verbatim>\<open>shipped_quantity\<close> is 2.00; the next one, on day 21, finds \<^verbatim>\<open>"2.005" >= "10.00"\<close>
  true as strings and sets \<^verbatim>\<open>date_shipped\<close> to day 21; the one after it, on day 22, sets
  \<^verbatim>\<open>date_shipped\<close> again, to day 22.
\<close>

theorem date_shipped_diverges:
  "(map_sum id (\<lambda>b. map_option oli_date_shipped (sb_lineItem b))
      (fst (shipLineItem demo_env demo_created 10 11 demo_ship_100)) = Inr (Some None)
    \<and> map (\<lambda>s. (s_line_item_id s, s_quantity s))
        (shipments (snd (shipLineItem demo_env demo_created 10 11 demo_ship_100))) = [(11, 10000)]
    \<and> ledger (snd (shipLineItem demo_env demo_created 10 11 demo_ship_100))
        = [(11, 10, 10000, 0, None)])
   \<and> (ledger ((ship_5_on 20 ^^ 200) demo_ten_created) = [(11, 10, 1000, 200, None)]
    \<and> ledger (ship_5_on 21 ((ship_5_on 20 ^^ 200) demo_ten_created)) = [(11, 10, 1000, 201, Some 21)]
    \<and> ledger (ship_5_on 22 (ship_5_on 21 ((ship_5_on 20 ^^ 200) demo_ten_created)))
        = [(11, 10, 1000, 202, Some 22)])"
  using full_shipment_no_date ship_5_on_overwrites by (rule conjI)

end
